theory Spec2Isabelle
  imports Main
begin

chapter \<open>npmleaderboard: the package aggregation scripts\<close>

text \<open>
  The repository holds two scripts. \<^verbatim>\<open>processPackagesInfo.py\<close> (class
  \<^verbatim>\<open>NPMPackageProcessor\<close>) builds one record per package name from three HTTP sources;
  \<^verbatim>\<open>scripts/updateExistingPackages.py\<close> (class \<^verbatim>\<open>NPMPackageUpdater\<close>) refreshes the
  stored packages from the same sources. Definitions that embed the first class carry the
  plain source name or the prefix \<open>processor_\<close>, those of the second the prefix \<open>updater_\<close>.
\<close>

section \<open>JSON values and the Python operations applied to them\<close>

text \<open>
  What \<^verbatim>\<open>response.json()\<close> returns. \<open>JObj kvs\<close> is a Python dict: the pairs in
  insertion order, looked up with \<open>map_of\<close>; a decoded object has distinct keys. Numbers
  are the integers; a number that Python decodes as a float has no representation here. A
  str is the list of its code points, each below 256: a \<open>char\<close> is the code point of its
  number. The texts of the interpreter's exceptions are those of CPython 3.11.
\<close>

datatype json =
    JNull
  | JBool bool
  | JInt int
  | JStr string
  | JArr "json list"
  | JObj "(string \<times> json) list"

text \<open>
  A caught exception, with the text \<^verbatim>\<open>str(e)\<close> gives for it. \<open>Raised\<close> is an exception of
  the HTTP client or of the body decoder (its text is whatever that library chose, the
  empty text included: \<^verbatim>\<open>str(asyncio.TimeoutError())\<close> is empty); \<open>Exception\<close> is a
  \<^verbatim>\<open>raise Exception(...)\<close> of the scripts; the others are raised by the interpreter for an
  operation of the scripts themselves. All of them are caught by \<^verbatim>\<open>except Exception\<close>; the
  cancellation of a task, which that clause lets through, is outside the model.
\<close>

datatype exn =
    KeyError string
  | AttributeError string
  | TypeError string
  | IndexError string
  | ValueError string
  | OverflowError string
  | Exception string
  | Raised string

fun str_exn :: "exn \<Rightarrow> string" where
  "str_exn (KeyError m) = m"
| "str_exn (AttributeError m) = m"
| "str_exn (TypeError m) = m"
| "str_exn (IndexError m) = m"
| "str_exn (ValueError m) = m"
| "str_exn (OverflowError m) = m"
| "str_exn (Exception m) = m"
| "str_exn (Raised m) = m"

fun and_then :: "exn + 'a \<Rightarrow> ('a \<Rightarrow> exn + 'b) \<Rightarrow> exn + 'b" where
  \<comment> \<open>sequencing inside a \<^verbatim>\<open>try\<close>: the first exception raised ends the block\<close>
  "and_then (Inl e) f = Inl e"
| "and_then (Inr x) f = f x"

fun dec_nat :: "nat \<Rightarrow> string" where
  "dec_nat n =
     (if n < 10 then [char_of (48 + n)]
      else dec_nat (n div 10) @ [char_of (48 + n mod 10)])"

declare dec_nat.simps [simp del]

definition dec_int :: "int \<Rightarrow> string" where
  \<comment> \<open>the decimal text of an integer, as an f-string writes it\<close>
  "dec_int i = (if i < 0 then CHR ''-'' # dec_nat (nat (- i)) else dec_nat (nat i))"

fun type_name :: "json \<Rightarrow> string" where
  "type_name JNull = ''NoneType''"
| "type_name (JBool _) = ''bool''"
| "type_name (JInt _) = ''int''"
| "type_name (JStr _) = ''str''"
| "type_name (JArr _) = ''list''"
| "type_name (JObj _) = ''dict''"

fun truthy :: "json \<Rightarrow> bool" where
  \<comment> \<open>Python's truth value of a decoded value\<close>
  "truthy JNull = False"
| "truthy (JBool b) = b"
| "truthy (JInt n) = (n \<noteq> 0)"
| "truthy (JStr s) = (s \<noteq> [])"
| "truthy (JArr xs) = (xs \<noteq> [])"
| "truthy (JObj kvs) = (kvs \<noteq> [])"

definition quoted :: "string \<Rightarrow> string" where
  \<comment> \<open>a name between single quotes, as the interpreter's messages write it\<close>
  "quoted s = [CHR 0x27] @ s @ [CHR 0x27]"

text \<open>
  \<^verbatim>\<open>repr\<close> of a str (CPython's \<^verbatim>\<open>unicode_repr\<close>), which \<^verbatim>\<open>str(KeyError(k))\<close> gives for a
  str key: between double quotes when the str holds a single quote and no double quote,
  between single quotes otherwise; the quote in use and the backslash are escaped, tab,
  newline and return are written \<^verbatim>\<open>\t\<close>, \<^verbatim>\<open>\n\<close>, \<^verbatim>\<open>\r\<close>, and every other code point that
  is not printable is written \<^verbatim>\<open>\xhh\<close>. Below 256 the printable code points are 32 to
  126 and 161 to 255 without 173.
\<close>

definition hex_digit :: "nat \<Rightarrow> char" where
  "hex_digit n = (if n < 10 then char_of (48 + n) else char_of (87 + n))"

definition printable :: "char \<Rightarrow> bool" where
  "printable c =
     (let n = (of_char c :: nat) in (32 \<le> n \<and> n < 127) \<or> (161 \<le> n \<and> n \<noteq> 173))"

definition repr_char :: "char \<Rightarrow> char \<Rightarrow> string" where
  \<comment> \<open>one code point of the str inside the quotes \<open>q\<close>\<close>
  "repr_char q c =
     (if c = q \<or> c = CHR 0x5C then [CHR 0x5C, c]
      else if c = CHR 0x09 then [CHR 0x5C, CHR ''t'']
      else if c = CHR 0x0A then [CHR 0x5C, CHR ''n'']
      else if c = CHR 0x0D then [CHR 0x5C, CHR ''r'']
      else if printable c then [c]
      else [CHR 0x5C, CHR ''x'', hex_digit (of_char c div 16), hex_digit (of_char c mod 16)])"

definition repr_str :: "string \<Rightarrow> string" where
  "repr_str k =
     (let q = (if CHR 0x27 \<in> set k \<and> CHR 0x22 \<notin> set k then CHR 0x22 else CHR 0x27)
      in [q] @ concat (map (repr_char q) k) @ [q])"

definition no_attribute :: "json \<Rightarrow> string \<Rightarrow> exn" where
  "no_attribute x a =
     AttributeError (quoted (type_name x) @ '' object has no attribute '' @ quoted a)"

fun dict_get :: "json \<Rightarrow> string \<Rightarrow> json \<Rightarrow> exn + json" where
  \<comment> \<open>\<^verbatim>\<open>x.get(key, default)\<close>: only a dict has the method\<close>
  "dict_get (JObj kvs) k d = Inr (case map_of kvs k of None \<Rightarrow> d | Some v \<Rightarrow> v)"
| "dict_get x k d = Inl (no_attribute x ''get'')"

fun dict_keys :: "json \<Rightarrow> exn + string list" where
  \<comment> \<open>\<^verbatim>\<open>list(x.keys())\<close>\<close>
  "dict_keys (JObj kvs) = Inr (map fst kvs)"
| "dict_keys x = Inl (no_attribute x ''keys'')"

definition index_of :: "int \<Rightarrow> nat \<Rightarrow> nat option" where
  \<comment> \<open>a Python sequence index into a sequence of length \<open>n\<close>: negative counts from the end\<close>
  "index_of i n =
     (let j = (if i < 0 then int n + i else i)
      in if 0 \<le> j \<and> j < int n then Some (nat j) else None)"

definition seq_item :: "json \<Rightarrow> int \<Rightarrow> exn + json" where
  \<comment> \<open>\<^verbatim>\<open>x[i]\<close> for a list or a str \<open>x\<close> and an integer \<open>i\<close>\<close>
  "seq_item x i =
     (case x of
        JArr xs \<Rightarrow>
          (case index_of i (length xs) of
             None \<Rightarrow> Inl (IndexError ''list index out of range'')
           | Some j \<Rightarrow> Inr (xs ! j))
      | JStr s \<Rightarrow>
          (case index_of i (length s) of
             None \<Rightarrow> Inl (IndexError ''string index out of range'')
           | Some j \<Rightarrow> Inr (JStr [s ! j]))
      | _ \<Rightarrow> Inl (TypeError (quoted (type_name x) @ '' object is not subscriptable'')))"

fun getitem :: "json \<Rightarrow> json \<Rightarrow> exn + json" where
  \<comment> \<open>\<^verbatim>\<open>x[i]\<close>. The keys of a decoded object are strs, so no other key is found in it.\<close>
  "getitem (JObj kvs) (JStr k) =
     (case map_of kvs k of None \<Rightarrow> Inl (KeyError (repr_str k)) | Some v \<Rightarrow> Inr v)"
| "getitem (JObj kvs) (JInt n) = Inl (KeyError (dec_int n))"
| "getitem (JObj kvs) (JBool b) = Inl (KeyError (if b then ''True'' else ''False''))"
| "getitem (JObj kvs) JNull = Inl (KeyError ''None'')"
| "getitem (JObj kvs) i = Inl (TypeError (''unhashable type: '' @ quoted (type_name i)))"
| "getitem (JArr xs) (JInt n) = seq_item (JArr xs) n"
| "getitem (JArr xs) (JBool b) = seq_item (JArr xs) (if b then 1 else 0)"
| "getitem (JArr xs) i =
     Inl (TypeError (''list indices must be integers or slices, not '' @ type_name i))"
| "getitem (JStr s) (JInt n) = seq_item (JStr s) n"
| "getitem (JStr s) (JBool b) = seq_item (JStr s) (if b then 1 else 0)"
| "getitem (JStr s) i =
     Inl (TypeError (''string indices must be integers, not '' @ quoted (type_name i)))"
| "getitem x i = Inl (TypeError (quoted (type_name x) @ '' object is not subscriptable''))"

fun py_iter :: "json \<Rightarrow> exn + json list" where
  \<comment> \<open>the items a \<^verbatim>\<open>for\<close> loop over the value visits: a dict gives its keys, a str its
      characters\<close>
  "py_iter (JArr xs) = Inr xs"
| "py_iter (JObj kvs) = Inr (map (\<lambda>kv. JStr (fst kv)) kvs)"
| "py_iter (JStr s) = Inr (map (\<lambda>c. JStr [c]) s)"
| "py_iter x = Inl (TypeError (quoted (type_name x) @ '' object is not iterable''))"

fun py_sum :: "json list \<Rightarrow> int \<Rightarrow> exn + int" where
  \<comment> \<open>\<^verbatim>\<open>sum(xs)\<close> from the running total; a bool counts as 0 or 1\<close>
  "py_sum [] acc = Inr acc"
| "py_sum (JInt n # xs) acc = py_sum xs (acc + n)"
| "py_sum (JBool b # xs) acc = py_sum xs (acc + (if b then 1 else 0))"
| "py_sum (x # xs) acc =
     Inl (TypeError (''unsupported operand type(s) for +: '' @ quoted ''int''
        @ '' and '' @ quoted (type_name x)))"

section \<open>HTTP calls and the results of the fetch helpers\<close>

text \<open>
  One \<^verbatim>\<open>session.get\<close> with the decoding of its body: the call raises, or it answers with a
  status and a body whose decoding (\<^verbatim>\<open>await response.json()\<close>) raises (\<open>Inl\<close>, the text of
  the exception) or gives a value. The scripts decode the body only of a status 200.
\<close>

datatype http_outcome =
    GetRaises string
  | Response int "string + json"

text \<open>
  The dict a fetch helper returns: \<open>Failed m\<close> is \<^verbatim>\<open>{"error": m}\<close>, \<open>Fetched x\<close> is the dict
  with the data keys and \<^verbatim>\<open>"error": None\<close>.
\<close>

datatype 'a fetched =
    Failed string
  | Fetched 'a

fun has_error :: "'a fetched \<Rightarrow> bool" where
  \<comment> \<open>the truth value of \<^verbatim>\<open>result.get("error")\<close>: an empty text is false\<close>
  "has_error (Failed m) = (m \<noteq> [])"
| "has_error (Fetched x) = False"

fun error_of :: "'a fetched \<Rightarrow> string" where
  \<comment> \<open>\<^verbatim>\<open>result["error"]\<close>, read only where \<open>has_error\<close> holds\<close>
  "error_of (Failed m) = m"
| "error_of (Fetched x) = []"

fun data_key :: "string \<Rightarrow> 'a fetched \<Rightarrow> exn + 'a" where
  \<comment> \<open>\<^verbatim>\<open>result[key]\<close> for a data key: the failure dict has none\<close>
  "data_key k (Failed m) = Inl (KeyError (repr_str k))"
| "data_key k (Fetched x) = Inr x"

record usage_stats =
  total_downloads :: json
  dependent_count :: json

definition caught :: "exn + 'a \<Rightarrow> 'a fetched" where
  \<comment> \<open>\<^verbatim>\<open>except Exception as e: return {"error": str(e)}\<close> around a helper's block\<close>
  "caught r = (case r of Inl e \<Rightarrow> Failed (str_exn e) | Inr x \<Rightarrow> Fetched x)"

definition fetch_ecosystem_stats :: "http_outcome \<Rightarrow> usage_stats fetched" where
  \<comment> \<open>the same text in both classes\<close>
  "fetch_ecosystem_stats call =
     (case call of
        GetRaises m \<Rightarrow> Failed m
      | Response status body \<Rightarrow>
          if status \<noteq> 200 then Failed (''Failed to fetch ecosystem stats: '' @ dec_int status)
          else
            (case body of
               Inl m \<Rightarrow> Failed m
             | Inr data \<Rightarrow>
                 caught
                   (and_then (dict_get data ''downloads'' (JInt 0)) (\<lambda>td.
                    and_then (dict_get data ''dependent_packages_count'' (JInt 0)) (\<lambda>dc.
                      Inr \<lparr>total_downloads = td, dependent_count = dc\<rparr>)))))"

section \<open>Weekly buckets by fixed chunks of seven (processPackagesInfo.py)\<close>

record weekly_bucket =
  week_ending :: json
  downloads :: int

fun weekly_loop ::
  "json list \<Rightarrow> json list \<Rightarrow> weekly_bucket list \<Rightarrow> exn + (json list \<times> weekly_bucket list)" where
  \<comment> \<open>the \<^verbatim>\<open>for day in ...\<close> loop; the state is \<open>current_week\<close> and \<open>downloads_by_week\<close>\<close>
  "weekly_loop [] current_week downloads_by_week = Inr (current_week, downloads_by_week)"
| "weekly_loop (day # rest) current_week downloads_by_week =
     (case getitem day (JStr ''downloads'') of
        Inl e \<Rightarrow> Inl e
      | Inr d \<Rightarrow>
          if length (current_week @ [d]) = 7 then
            (case getitem day (JStr ''day'') of
               Inl e \<Rightarrow> Inl e
             | Inr we \<Rightarrow>
                 (case py_sum (current_week @ [d]) 0 of
                    Inl e \<Rightarrow> Inl e
                  | Inr s \<Rightarrow>
                      weekly_loop rest []
                        (downloads_by_week @ [\<lparr>week_ending = we, downloads = s\<rparr>])))
          else weekly_loop rest (current_week @ [d]) downloads_by_week)"

definition processor_weekly_trends :: "json \<Rightarrow> exn + weekly_bucket list" where
  \<comment> \<open>lines 60 to 80 of \<^verbatim>\<open>fetch_weekly_trends\<close>: from the decoded body to the bucket list\<close>
  "processor_weekly_trends download_data =
     and_then (dict_get download_data ''downloads'' (JArr [])) (\<lambda>series.
     and_then (py_iter series) (\<lambda>days.
     and_then (weekly_loop days [] []) (\<lambda>(current_week, downloads_by_week).
       if current_week \<noteq> [] then
         and_then (getitem download_data (JStr ''downloads'')) (\<lambda>all_days.
         and_then (getitem all_days (JInt (- 1))) (\<lambda>last_day.
         and_then (getitem last_day (JStr ''day'')) (\<lambda>we.
         and_then (py_sum current_week 0) (\<lambda>s.
           Inr (downloads_by_week @ [\<lparr>week_ending = we, downloads = s\<rparr>])))))
       else Inr downloads_by_week)))"

definition processor_fetch_weekly_trends :: "http_outcome \<Rightarrow> weekly_bucket list fetched" where
  "processor_fetch_weekly_trends call =
     (case call of
        GetRaises m \<Rightarrow> Failed m
      | Response status body \<Rightarrow>
          if status \<noteq> 200 then Failed (''Failed to fetch download stats: '' @ dec_int status)
          else
            (case body of
               Inl m \<Rightarrow> Failed m
             | Inr download_data \<Rightarrow> caught (processor_weekly_trends download_data)))"

section \<open>The per-package aggregation (processPackagesInfo.py)\<close>

text \<open>
  The keys the two scripts compute alike; \<open>downloads_total\<close> and \<open>weekly_trends\<close> are the two
  keys of the nested \<^verbatim>\<open>"downloads"\<close> dict. A value taken from a body as it is stays a
  \<open>json\<close>.
\<close>

record package_fields =
  description :: json
  link :: string
  dependencies :: "string list"
  downloads_total :: json
  weekly_trends :: "weekly_bucket list"
  dependent_packages_count :: json
  latest_version :: json

record package_record = package_fields +
  name :: string
  error :: "string option"

definition create_error_entry :: "string \<Rightarrow> string \<Rightarrow> package_record" where
  \<comment> \<open>\<^verbatim>\<open>_create_error_entry\<close>\<close>
  "create_error_entry package_name error_msg =
     \<lparr>description = JStr [],
      link = [],
      dependencies = [],
      downloads_total = JInt 0,
      weekly_trends = [],
      dependent_packages_count = JInt 0,
      latest_version = JStr [],
      name = package_name,
      error = Some error_msg\<rparr>"

text \<open>What the three upstream sources do for one package during one run.\<close>

record sources =
  registry :: http_outcome
  ecosystem :: http_outcome
  trends :: http_outcome

fun has_key :: "json \<Rightarrow> string \<Rightarrow> bool" where
  \<comment> \<open>\<^verbatim>\<open>key in x\<close> for a dict \<open>x\<close>; the scripts ask it only of a value whose \<^verbatim>\<open>get\<close> has
      already been called\<close>
  "has_key (JObj kvs) k = (map_of kvs k \<noteq> None)"
| "has_key x k = False"

definition processor_compose ::
  "string \<Rightarrow> json \<Rightarrow> usage_stats fetched \<Rightarrow> weekly_bucket list fetched \<Rightarrow> exn + package_record" where
  \<comment> \<open>lines 115 to 136 of \<^verbatim>\<open>fetch_package_info\<close>\<close>
  "processor_compose package_name data ecosystem_stats weekly_stats =
     and_then (dict_get data ''dist-tags'' (JObj [])) (\<lambda>tags.
     and_then (dict_get tags ''latest'' JNull) (\<lambda>latest.
       if \<not> truthy latest \<or> \<not> has_key data ''versions'' then
         Inr (create_error_entry package_name ''No version information found'')
       else
         and_then (getitem data (JStr ''versions'')) (\<lambda>versions.
         and_then (getitem versions latest) (\<lambda>latest_data.
         and_then (dict_get data ''description'' (JStr [])) (\<lambda>descr.
         and_then (dict_get latest_data ''dependencies'' (JObj [])) (\<lambda>deps.
         and_then (dict_keys deps) (\<lambda>dep_names.
         and_then (data_key ''total_downloads'' ecosystem_stats) (\<lambda>stats.
         and_then (data_key ''weekly_trends'' weekly_stats) (\<lambda>weeks.
           Inr \<lparr>description = descr,
                link = ''https://www.npmjs.com/package/'' @ package_name,
                dependencies = dep_names,
                downloads_total = total_downloads stats,
                weekly_trends = weeks,
                dependent_packages_count = dependent_count stats,
                latest_version = latest,
                name = package_name,
                error = None\<rparr>)))))))))"

definition fetch_package_info_try :: "sources \<Rightarrow> string \<Rightarrow> exn + package_record" where
  \<comment> \<open>the block under \<^verbatim>\<open>try\<close>: \<open>Inl\<close> is an exception that leaves it\<close>
  "fetch_package_info_try src package_name =
     (case registry src of
        GetRaises m \<Rightarrow> Inl (Raised m)
      | Response status body \<Rightarrow>
          if status \<noteq> 200 then
            Inr (create_error_entry package_name
                   (''Failed to fetch package info: '' @ dec_int status))
          else
            (case body of
               Inl m \<Rightarrow> Inl (Raised m)
             | Inr data \<Rightarrow>
                 (let ecosystem_stats = fetch_ecosystem_stats (ecosystem src) in
                  if has_error ecosystem_stats then
                    Inr (create_error_entry package_name (error_of ecosystem_stats))
                  else
                    (let weekly_stats = processor_fetch_weekly_trends (trends src) in
                     if has_error weekly_stats then
                       Inr (create_error_entry package_name (error_of weekly_stats))
                     else processor_compose package_name data ecosystem_stats weekly_stats))))"

definition fetch_package_info :: "sources \<Rightarrow> string \<Rightarrow> package_record" where
  \<comment> \<open>with the \<^verbatim>\<open>except Exception\<close> clause that closes the function\<close>
  "fetch_package_info src package_name =
     (case fetch_package_info_try src package_name of
        Inl e \<Rightarrow> create_error_entry package_name (str_exn e)
      | Inr r \<Rightarrow> r)"

text \<open>
  \<^verbatim>\<open>process_packages\<close> starts one task per name and awaits \<^verbatim>\<open>asyncio.gather\<close>. The tasks
  finish in some order, \<open>finished\<close> (the positions of the tasks, first finished first);
  \<open>gather\<close> keeps each task's result and, once every task has one, returns the results in
  the order of the tasks. \<open>None\<close>: a task never finished, and \<open>gather\<close> never returns.
  \<open>srcs i\<close> is what the sources do for the task at position \<open>i\<close>.
\<close>

definition gather :: "nat list \<Rightarrow> nat \<Rightarrow> (nat \<Rightarrow> 'a) \<Rightarrow> 'a list option" where
  "gather finished n task =
     (let results = fold (\<lambda>i done. done(i \<mapsto> task i)) finished Map.empty
      in if \<forall>i\<in>set [0..<n]. results i \<noteq> None
         then Some (map (\<lambda>i. the (results i)) [0..<n]) else None)"

definition process_packages ::
  "nat list \<Rightarrow> (nat \<Rightarrow> sources) \<Rightarrow> string list \<Rightarrow> package_record list option" where
  "process_packages finished srcs package_names =
     gather finished (length package_names)
       (\<lambda>i. fetch_package_info (srcs i) (package_names ! i))"

definition successful :: "package_record list \<Rightarrow> nat" where
  \<comment> \<open>the summary's count: \<^verbatim>\<open>sum(1 for r in results if not r.get("error"))\<close>\<close>
  "successful results =
     length (filter (\<lambda>r. case error r of None \<Rightarrow> True | Some m \<Rightarrow> m = []) results)"

section \<open>Dates\<close>

text \<open>
  A \<^verbatim>\<open>datetime\<close> at midnight is its proleptic Gregorian ordinal (\<^verbatim>\<open>toordinal()\<close>: day 1 is
  0001-01-01, the last day 3652059 is 9999-12-31). \<^verbatim>\<open>weekday()\<close> is 0 on a Monday.
\<close>

definition weekday :: "int \<Rightarrow> int" where
  "weekday d = (d + 6) mod 7"

definition add_days :: "int \<Rightarrow> int \<Rightarrow> exn + int" where
  \<comment> \<open>\<^verbatim>\<open>d + timedelta(days=k)\<close>\<close>
  "add_days d k =
     (if 1 \<le> d + k \<and> d + k \<le> 3652059 then Inr (d + k)
      else Inl (OverflowError ''date value out of range''))"

text \<open>
  \<^verbatim>\<open>datetime.strptime(s, "%Y-%m-%d")\<close> and \<^verbatim>\<open>strftime("%Y-%m-%d")\<close> belong to the Python
  library; the functions of the updater take them as the parameters \<open>strptime\<close> and
  \<open>strftime\<close>. \<open>iso_strptime\<close> and \<open>iso_strftime\<close> are the library's functions for this
  format, as CPython 3.11 has them on Linux, used to run the updater on concrete dates.
  The dates follow \<^verbatim>\<open>_ymd2ord\<close> and \<^verbatim>\<open>_ord2ymd\<close>.
\<close>

definition is_leap :: "int \<Rightarrow> bool" where
  "is_leap y = (y mod 4 = 0 \<and> (y mod 100 \<noteq> 0 \<or> y mod 400 = 0))"

definition days_before_year :: "int \<Rightarrow> int" where
  "days_before_year y = (y - 1) * 365 + (y - 1) div 4 - (y - 1) div 100 + (y - 1) div 400"

definition month_length :: "bool \<Rightarrow> int \<Rightarrow> int" where
  \<comment> \<open>the days of month \<open>m\<close> in a leap year or in a common year\<close>
  "month_length leap m =
     (if m = 2 then (if leap then 29 else 28)
      else if m = 4 \<or> m = 6 \<or> m = 9 \<or> m = 11 then 30 else 31)"

definition days_before_month :: "bool \<Rightarrow> int \<Rightarrow> int" where
  "days_before_month leap m = sum_list (map (month_length leap) [1..m - 1])"

definition ymd2ord :: "int \<Rightarrow> int \<Rightarrow> int \<Rightarrow> int" where
  "ymd2ord y m d = days_before_year y + days_before_month (is_leap y) m + d"

definition ord2ymd :: "int \<Rightarrow> int \<times> int \<times> int" where
  "ord2ymd ordinal =
     (let n = ordinal - 1;
          n400 = n div 146097; n = n mod 146097;
          n100 = n div 36524; n = n mod 36524;
          n4 = n div 1461; n = n mod 1461;
          n1 = n div 365; n = n mod 365;
          year = n400 * 400 + 1 + n100 * 100 + n4 * 4 + n1
      in if n1 = 4 \<or> n100 = 4 then (year - 1, 12, 31)
         else
           (let leapyear = (n1 = 3 \<and> (n4 \<noteq> 24 \<or> n100 = 3));
                month = (n + 50) div 32;
                preceding = days_before_month leapyear month;
                month' = (if preceding > n then month - 1 else month);
                preceding' = days_before_month leapyear month'
            in (year, month', n - preceding' + 1)))"

definition digit_of :: "char \<Rightarrow> int option" where
  "digit_of c =
     (let v = (of_char c :: nat) in if 48 \<le> v \<and> v \<le> 57 then Some (int v - 48) else None)"

definition digit :: "char \<Rightarrow> int" where
  "digit c = (case digit_of c of None \<Rightarrow> 0 | Some v \<Rightarrow> v)"

definition is_digit :: "char \<Rightarrow> bool" where
  "is_digit c = (digit_of c \<noteq> None)"

definition nonzero_digit :: "char \<Rightarrow> bool" where
  "nonzero_digit c = (case digit_of c of None \<Rightarrow> False | Some v \<Rightarrow> 1 \<le> v)"

text \<open>
  The library turns the format into the regular expression
  \<^verbatim>\<open>(?P<Y>\d\d\d\d)-(?P<m>1[0-2]|0[1-9]|[1-9])-(?P<d>3[0-1]|[1-2]\d|0[1-9]|[1-9]| [1-9])\<close>
  and matches it at the start of the text, the alternatives in this order. Each function
  below matches one part and returns its number and the text after it.
\<close>

definition match_year_dash :: "string \<Rightarrow> (int \<times> string) option" where
  \<comment> \<open>four digits and the dash\<close>
  "match_year_dash s =
     (case s of
        a # b # c # d # e # r \<Rightarrow>
          if is_digit a \<and> is_digit b \<and> is_digit c \<and> is_digit d \<and> e = CHR ''-''
          then Some (1000 * digit a + 100 * digit b + 10 * digit c + digit d, r)
          else None
      | _ \<Rightarrow> None)"

definition match_month_dash :: "string \<Rightarrow> (int \<times> string) option" where
  \<comment> \<open>the month and the dash: a month of two digits needs the dash third, a month of one
      digit needs it second\<close>
  "match_month_dash s =
     (case s of
        a # b # r \<Rightarrow>
          (case r of
             c # r' \<Rightarrow>
               if a = CHR ''1'' \<and> (b = CHR ''0'' \<or> b = CHR ''1'' \<or> b = CHR ''2'') \<and> c = CHR ''-''
               then Some (10 + digit b, r')
               else if a = CHR ''0'' \<and> nonzero_digit b \<and> c = CHR ''-'' then Some (digit b, r')
               else if nonzero_digit a \<and> b = CHR ''-'' then Some (digit a, r)
               else None
           | [] \<Rightarrow> if nonzero_digit a \<and> b = CHR ''-'' then Some (digit a, r) else None)
      | _ \<Rightarrow> None)"

definition match_day :: "string \<Rightarrow> (int \<times> string) option" where
  \<comment> \<open>the day: the first alternative that matches, whatever follows\<close>
  "match_day s =
     (case s of
        [] \<Rightarrow> None
      | a # r \<Rightarrow>
          (case r of
             b # r' \<Rightarrow>
               if a = CHR ''3'' \<and> (b = CHR ''0'' \<or> b = CHR ''1'') then Some (30 + digit b, r')
               else if (a = CHR ''1'' \<or> a = CHR ''2'') \<and> is_digit b
               then Some (10 * digit a + digit b, r')
               else if a = CHR ''0'' \<and> nonzero_digit b then Some (digit b, r')
               else if nonzero_digit a then Some (digit a, r)
               else if a = CHR '' '' \<and> nonzero_digit b then Some (digit b, r')
               else None
           | [] \<Rightarrow> if nonzero_digit a then Some (digit a, r) else None))"

definition bad_date :: "string \<Rightarrow> exn" where
  "bad_date s =
     ValueError (''time data '' @ repr_str s @ '' does not match format '' @ repr_str ''%Y-%m-%d'')"

fun iso_strptime :: "json \<Rightarrow> exn + int" where
  "iso_strptime (JStr s) =
     (case match_year_dash s of
        None \<Rightarrow> Inl (bad_date s)
      | Some (y, after_year) \<Rightarrow>
          (case match_month_dash after_year of
             None \<Rightarrow> Inl (bad_date s)
           | Some (m, after_month) \<Rightarrow>
               (case match_day after_month of
                  None \<Rightarrow> Inl (bad_date s)
                | Some (d, rest) \<Rightarrow>
                    if rest \<noteq> [] then Inl (ValueError (''unconverted data remains: '' @ rest))
                    else if y = 0 then Inl (ValueError ''year 0 is out of range'')
                    else if month_length (is_leap y) m < d
                    then Inl (ValueError ''day is out of range for month'')
                    else Inr (ymd2ord y m d))))"
| "iso_strptime JNull = Inl (TypeError ''strptime() argument 1 must be str, not None'')"
| "iso_strptime x =
     Inl (TypeError (''strptime() argument 1 must be str, not '' @ type_name x))"

definition two_digits :: "int \<Rightarrow> string" where
  \<comment> \<open>\<^verbatim>\<open>%m\<close> and \<^verbatim>\<open>%d\<close>: two digits\<close>
  "two_digits i = (if i < 10 then CHR ''0'' # dec_nat (nat i) else dec_nat (nat i))"

definition iso_strftime :: "int \<Rightarrow> string" where
  \<comment> \<open>\<^verbatim>\<open>%Y\<close> is the year as the C library writes it, without leading zeros\<close>
  "iso_strftime d =
     (case ord2ymd d of (y, m, dd) \<Rightarrow> dec_nat (nat y) @ ''-'' @ two_digits m @ ''-'' @ two_digits dd)"

section \<open>Weekly buckets by calendar week (scripts/updateExistingPackages.py)\<close>

fun updater_weekly_loop ::
  "(json \<Rightarrow> exn + int) \<Rightarrow> (int \<Rightarrow> string) \<Rightarrow> json list \<Rightarrow> json list \<Rightarrow> int option
     \<Rightarrow> weekly_bucket list \<Rightarrow> exn + (json list \<times> int option \<times> weekly_bucket list)" where
  \<comment> \<open>the \<^verbatim>\<open>for day_data in ...\<close> loop; the state is \<open>current_week\<close>,
      \<open>current_week_start\<close> (\<open>None\<close> as in Python) and \<open>downloads_by_week\<close>\<close>
  "updater_weekly_loop strptime strftime [] current_week current_week_start downloads_by_week =
     Inr (current_week, current_week_start, downloads_by_week)"
| "updater_weekly_loop strptime strftime (day_data # rest) current_week current_week_start
     downloads_by_week =
     (case getitem day_data (JStr ''day'') of
        Inl e \<Rightarrow> Inl e
      | Inr day_text \<Rightarrow>
          (case strptime day_text of
             Inl e \<Rightarrow> Inl e
           | Inr day_date \<Rightarrow>
               if weekday day_date = 0 then
                 (if current_week \<noteq> [] then
                    (case add_days day_date (- 1) of
                       Inl e \<Rightarrow> Inl e
                     | Inr week_end \<Rightarrow>
                         (case py_sum current_week 0 of
                            Inl e \<Rightarrow> Inl e
                          | Inr s \<Rightarrow>
                              (case getitem day_data (JStr ''downloads'') of
                                 Inl e \<Rightarrow> Inl e
                               | Inr d \<Rightarrow>
                                   updater_weekly_loop strptime strftime rest [d] (Some day_date)
                                     (downloads_by_week
                                       @ [\<lparr>week_ending = JStr (strftime week_end),
                                            downloads = s\<rparr>]))))
                  else
                    (case getitem day_data (JStr ''downloads'') of
                       Inl e \<Rightarrow> Inl e
                     | Inr d \<Rightarrow>
                         updater_weekly_loop strptime strftime rest [d] (Some day_date)
                           downloads_by_week))
               else
                 (case getitem day_data (JStr ''downloads'') of
                    Inl e \<Rightarrow> Inl e
                  | Inr d \<Rightarrow>
                      updater_weekly_loop strptime strftime rest (current_week @ [d])
                        current_week_start downloads_by_week)))"

definition updater_weekly_trends ::
  "(json \<Rightarrow> exn + int) \<Rightarrow> (int \<Rightarrow> string) \<Rightarrow> json \<Rightarrow> exn + weekly_bucket list" where
  \<comment> \<open>lines 70 to 95 of \<^verbatim>\<open>fetch_weekly_trends\<close>: from the decoded body to the bucket list\<close>
  "updater_weekly_trends strptime strftime download_data =
     and_then (dict_get download_data ''downloads'' (JArr [])) (\<lambda>series.
     and_then (py_iter series) (\<lambda>days.
     and_then (updater_weekly_loop strptime strftime days [] None [])
       (\<lambda>(current_week, current_week_start, downloads_by_week).
       if current_week \<noteq> [] \<and> length current_week = 7 then
         and_then
           (case current_week_start of
              None \<Rightarrow>
                Inl (TypeError (''unsupported operand type(s) for +: '' @ quoted ''NoneType''
                       @ '' and '' @ quoted ''datetime.timedelta''))
            | Some start \<Rightarrow> add_days start 6) (\<lambda>week_end.
         and_then (py_sum current_week 0) (\<lambda>s.
           Inr (downloads_by_week @ [\<lparr>week_ending = JStr (strftime week_end), downloads = s\<rparr>])))
       else Inr downloads_by_week)))"

definition updater_fetch_weekly_trends ::
  "(json \<Rightarrow> exn + int) \<Rightarrow> (int \<Rightarrow> string) \<Rightarrow> http_outcome \<Rightarrow> weekly_bucket list fetched" where
  "updater_fetch_weekly_trends strptime strftime call =
     (case call of
        GetRaises m \<Rightarrow> Failed m
      | Response status body \<Rightarrow>
          if status \<noteq> 200 then Failed (''Failed to fetch download stats: '' @ dec_int status)
          else
            (case body of
               Inl m \<Rightarrow> Failed m
             | Inr download_data \<Rightarrow>
                 caught (updater_weekly_trends strptime strftime download_data)))"

section \<open>The per-package update (scripts/updateExistingPackages.py)\<close>

record update_fields = package_fields +
  peerDependencies :: "string list"
  last_updated :: int

definition updater_compose ::
  "string \<Rightarrow> json \<Rightarrow> usage_stats fetched \<Rightarrow> weekly_bucket list fetched \<Rightarrow> int
     \<Rightarrow> exn + update_fields" where
  \<comment> \<open>lines 117 to 134 of \<^verbatim>\<open>update_package_info\<close>; \<open>now\<close> is the clock read for
      \<^verbatim>\<open>last_updated\<close>\<close>
  "updater_compose package_name data ecosystem_stats weekly_stats now =
     and_then (dict_get data ''dist-tags'' (JObj [])) (\<lambda>tags.
     and_then (dict_get tags ''latest'' JNull) (\<lambda>latest.
       if \<not> truthy latest \<or> \<not> has_key data ''versions'' then
         Inl (Exception ''No version information found'')
       else
         and_then (getitem data (JStr ''versions'')) (\<lambda>versions.
         and_then (getitem versions latest) (\<lambda>latest_data.
         and_then (dict_get latest_data ''peerDependencies'' (JObj [])) (\<lambda>peers.
         and_then (dict_keys peers) (\<lambda>peer_dependencies.
         and_then (dict_get data ''description'' (JStr [])) (\<lambda>descr.
         and_then (dict_get latest_data ''dependencies'' (JObj [])) (\<lambda>deps.
         and_then (dict_keys deps) (\<lambda>dep_names.
         and_then (data_key ''total_downloads'' ecosystem_stats) (\<lambda>stats.
         and_then (data_key ''weekly_trends'' weekly_stats) (\<lambda>weeks.
           Inr \<lparr>description = descr,
                link = ''https://www.npmjs.com/package/'' @ package_name,
                dependencies = dep_names,
                downloads_total = total_downloads stats,
                weekly_trends = weeks,
                dependent_packages_count = dependent_count stats,
                latest_version = latest,
                peerDependencies = peer_dependencies,
                last_updated = now\<rparr>)))))))))))"

definition update_package_info_try ::
  "(json \<Rightarrow> exn + int) \<Rightarrow> (int \<Rightarrow> string) \<Rightarrow> sources \<Rightarrow> string \<Rightarrow> int \<Rightarrow> exn + update_fields" where
  \<comment> \<open>the block under \<^verbatim>\<open>try\<close>, up to the dict \<^verbatim>\<open>update_fields\<close>\<close>
  "update_package_info_try strptime strftime src package_name now =
     (case registry src of
        GetRaises m \<Rightarrow> Inl (Raised m)
      | Response status body \<Rightarrow>
          if status \<noteq> 200 then
            Inl (Exception (''Failed to fetch package info: '' @ dec_int status))
          else
            (case body of
               Inl m \<Rightarrow> Inl (Raised m)
             | Inr data \<Rightarrow>
                 (let ecosystem_stats = fetch_ecosystem_stats (ecosystem src) in
                  if has_error ecosystem_stats then Inl (Exception (error_of ecosystem_stats))
                  else
                    (let weekly_stats =
                           updater_fetch_weekly_trends strptime strftime (trends src) in
                     if has_error weekly_stats then Inl (Exception (error_of weekly_stats))
                     else updater_compose package_name data ecosystem_stats weekly_stats now))))"



section \<open>The semaphore and the calls in flight\<close>

text \<open>
  Both classes hold one \<^verbatim>\<open>asyncio.Semaphore(10)\<close> and run one task per package. A task is
  at one of these points: waiting to acquire the semaphore before a call, with a call in
  flight (suspended in \<^verbatim>\<open>session.get\<close> or in the decoding of the body), or finished.
  \<open>holding\<close> says whether the task holds a unit of the semaphore during the call.
\<close>

datatype stage = Metadata | Usage | Trend

datatype point =
    Waiting stage
  | InFlight stage bool
  | Finished

record pool =
  sem :: nat
  tasks :: "point list"

text \<open>
  An event of the event loop: task \<open>i\<close> acquires the semaphore, or the call task \<open>i\<close> waits
  for ends, with or without an error (a status other than 200, an exception, a helper's
  error dict). An event that cannot happen in the state gives \<open>None\<close>.
\<close>

datatype event =
    Acquire nat
  | Ends nat bool

definition processor_step :: "event \<Rightarrow> pool \<Rightarrow> pool option" where
  \<comment> \<open>\<^verbatim>\<open>fetch_package_info\<close>: one \<^verbatim>\<open>async with self.semaphore\<close> around the three calls\<close>
  "processor_step ev p =
     (case ev of
        Acquire i \<Rightarrow>
          if i < length (tasks p) \<and> tasks p ! i = Waiting Metadata \<and> 0 < sem p
          then Some \<lparr>sem = sem p - 1, tasks = (tasks p)[i := InFlight Metadata True]\<rparr>
          else None
      | Ends i ok \<Rightarrow>
          if i < length (tasks p) then
            (case tasks p ! i of
               InFlight Metadata h \<Rightarrow>
                 if ok then Some (p\<lparr>tasks := (tasks p)[i := InFlight Usage True]\<rparr>)
                 else Some \<lparr>sem = sem p + 1, tasks = (tasks p)[i := Finished]\<rparr>
             | InFlight Usage h \<Rightarrow>
                 if ok then Some (p\<lparr>tasks := (tasks p)[i := InFlight Trend True]\<rparr>)
                 else Some \<lparr>sem = sem p + 1, tasks = (tasks p)[i := Finished]\<rparr>
             | InFlight Trend h \<Rightarrow>
                 Some \<lparr>sem = sem p + 1, tasks = (tasks p)[i := Finished]\<rparr>
             | _ \<Rightarrow> None)
          else None)"

definition updater_step :: "event \<Rightarrow> pool \<Rightarrow> pool option" where
  \<comment> \<open>\<^verbatim>\<open>update_package_info\<close>: the semaphore around the registry call, none around
      \<^verbatim>\<open>fetch_ecosystem_stats\<close>, and the semaphore inside \<^verbatim>\<open>fetch_weekly_trends\<close>\<close>
  "updater_step ev p =
     (case ev of
        Acquire i \<Rightarrow>
          if i < length (tasks p) \<and> 0 < sem p then
            (case tasks p ! i of
               Waiting Metadata \<Rightarrow>
                 Some \<lparr>sem = sem p - 1, tasks = (tasks p)[i := InFlight Metadata True]\<rparr>
             | Waiting Trend \<Rightarrow>
                 Some \<lparr>sem = sem p - 1, tasks = (tasks p)[i := InFlight Trend True]\<rparr>
             | _ \<Rightarrow> None)
          else None
      | Ends i ok \<Rightarrow>
          if i < length (tasks p) then
            (case tasks p ! i of
               InFlight Metadata h \<Rightarrow>
                 if ok then Some \<lparr>sem = sem p + 1, tasks = (tasks p)[i := InFlight Usage False]\<rparr>
                 else Some \<lparr>sem = sem p + 1, tasks = (tasks p)[i := Finished]\<rparr>
             | InFlight Usage h \<Rightarrow>
                 if ok then Some (p\<lparr>tasks := (tasks p)[i := Waiting Trend]\<rparr>)
                 else Some (p\<lparr>tasks := (tasks p)[i := Finished]\<rparr>)
             | InFlight Trend h \<Rightarrow>
                 Some \<lparr>sem = sem p + 1, tasks = (tasks p)[i := Finished]\<rparr>
             | _ \<Rightarrow> None)
          else None)"

fun run :: "(event \<Rightarrow> pool \<Rightarrow> pool option) \<Rightarrow> event list \<Rightarrow> pool \<Rightarrow> pool option" where
  "run step [] p = Some p"
| "run step (ev # evs) p = (case step ev p of None \<Rightarrow> None | Some p' \<Rightarrow> run step evs p')"

definition start :: "nat \<Rightarrow> pool" where
  \<comment> \<open>\<open>n\<close> tasks created, none has run yet; the semaphore is new\<close>
  "start n = \<lparr>sem = 10, tasks = replicate n (Waiting Metadata)\<rparr>"

fun in_flight_point :: "point \<Rightarrow> bool" where
  "in_flight_point (InFlight s h) = True"
| "in_flight_point p = False"

definition in_flight :: "pool \<Rightarrow> nat" where
  \<comment> \<open>the outbound calls executing at this moment\<close>
  "in_flight p = length (filter in_flight_point (tasks p))"

section \<open>Notions used to state the properties\<close>

text \<open>
  A daily entry of the download series is an object with a \<^verbatim>\<open>"day"\<close> and an integer
  \<^verbatim>\<open>"downloads"\<close>; \<open>count_of\<close> and \<open>day_of\<close> read the two. \<open>all_chunks\<close> cuts a list into
  consecutive runs of seven, the last run shorter when the length is no multiple of seven
  (\<open>full_chunks\<close> are the runs of seven, \<open>rest_chunk\<close> what is left after them).
\<close>

fun is_daily :: "json \<Rightarrow> bool" where
  "is_daily (JObj kvs) =
     (case map_of kvs ''downloads'' of
        Some (JInt n) \<Rightarrow> map_of kvs ''day'' \<noteq> None
      | _ \<Rightarrow> False)"
| "is_daily _ = False"

fun count_of :: "json \<Rightarrow> int" where
  "count_of (JObj kvs) = (case map_of kvs ''downloads'' of Some (JInt n) \<Rightarrow> n | _ \<Rightarrow> 0)"
| "count_of _ = 0"

fun day_of :: "json \<Rightarrow> json" where
  "day_of (JObj kvs) = (case map_of kvs ''day'' of Some d \<Rightarrow> d | None \<Rightarrow> JNull)"
| "day_of _ = JNull"

definition bucket_of :: "json list \<Rightarrow> weekly_bucket" where
  "bucket_of chunk = \<lparr>week_ending = day_of (last chunk), downloads = sum_list (map count_of chunk)\<rparr>"

fun full_chunks :: "'a list \<Rightarrow> 'a list list" where
  "full_chunks xs = (if length xs < 7 then [] else take 7 xs # full_chunks (drop 7 xs))"

fun rest_chunk :: "'a list \<Rightarrow> 'a list" where
  "rest_chunk xs = (if length xs < 7 then xs else rest_chunk (drop 7 xs))"

declare full_chunks.simps [simp del] rest_chunk.simps [simp del]

definition all_chunks :: "'a list \<Rightarrow> 'a list list" where
  "all_chunks xs = full_chunks xs @ (if rest_chunk xs = [] then [] else [rest_chunk xs])"

definition daily :: "string \<Rightarrow> int \<Rightarrow> json" where
  "daily d n = JObj [(''downloads'', JInt n), (''day'', JStr d)]"

definition january17 :: "json list" where
  "january17 =
     map (\<lambda>d. daily d 1)
       [''2024-01-01'', ''2024-01-02'', ''2024-01-03'', ''2024-01-04'', ''2024-01-05'',
        ''2024-01-06'', ''2024-01-07'', ''2024-01-08'', ''2024-01-09'', ''2024-01-10'',
        ''2024-01-11'', ''2024-01-12'', ''2024-01-13'', ''2024-01-14'', ''2024-01-15'',
        ''2024-01-16'', ''2024-01-17'']"



definition names_of :: "(string \<times> json) list \<Rightarrow> string \<Rightarrow> string list option" where
  "names_of latest_data k =
     (case map_of latest_data k of
        None \<Rightarrow> Some []
      | Some (JObj m) \<Rightarrow> Some (map fst m)
      | Some _ \<Rightarrow> None)"

text \<open>
  Concrete sources, for the examples: a registry document with a latest version (its peer
  dependencies a parameter), one without any version information, one whose
  \<^verbatim>\<open>dist-tags\<close> is \<^verbatim>\<open>null\<close>, one whose latest tag names a version that is not listed;
  sources that answer all three calls, a registry that answers 404, a registry call that
  times out with an exception of empty text.
\<close>

definition package_doc :: "json \<Rightarrow> json" where
  "package_doc peers =
     JObj [(''name'', JStr ''react-dom''),
           (''description'', JStr ''React package for working with the DOM.''),
           (''dist-tags'', JObj [(''latest'', JStr ''18.2.0''), (''next'', JStr ''18.3.0-next'')]),
           (''versions'',
              JObj [(''18.1.0'', JObj [(''version'', JStr ''18.1.0'')]),
                    (''18.2.0'',
                       JObj [(''version'', JStr ''18.2.0''),
                             (''dependencies'',
                                JObj [(''loose-envify'', JStr ''^1.1.0''),
                                      (''scheduler'', JStr ''^0.23.0'')]),
                             (''peerDependencies'', peers)])])]"




definition answering :: "json \<Rightarrow> sources" where
  "answering doc =
     \<lparr>registry = Response 200 (Inr doc),
      ecosystem = Response 200 (Inr (JObj [(''downloads'', JInt 48213), (''stars'', JInt 7)])),
      trends = Response 200 (Inr (JObj [(''downloads'', JArr january17)]))\<rparr>"

definition not_found :: sources where
  "not_found =
     \<lparr>registry = Response 404 (Inr (JObj [(''error'', JStr ''Not found'')])),
      ecosystem = Response 404 (Inr JNull),
      trends = Response 404 (Inr JNull)\<rparr>"

definition timing_out :: sources where
  "timing_out =
     \<lparr>registry = GetRaises [],
      ecosystem = Response 200 (Inr (JObj [])),
      trends = Response 200 (Inr (JObj []))\<rparr>"



definition two_names :: "string list" where
  "two_names = [''react-dom'', ''does-not-exist-xyz123'']"

definition two_sources :: "nat \<Rightarrow> sources" where
  "two_sources i = (if i = 0 then answering (package_doc (JObj [])) else not_found)"


definition timeout_names :: "string list" where
  "timeout_names = [''left-pad'', ''react-dom'']"

definition timeout_sources :: "nat \<Rightarrow> sources" where
  \<comment> \<open>the registry call for the first name times out, the second package answers\<close>
  "timeout_sources i = (if i = 0 then timing_out else answering (package_doc (JObj [])))"

text \<open>
  Eleven packages: the events that put eleven calls in flight in the updater. Two download
  series of count 1 a day: one from Wednesday 2024-01-03 to Sunday 2024-03-03, one from
  Sunday 2023-12-31 to Sunday 2024-02-25.
\<close>

definition eleven_calls :: "event list" where
  "eleven_calls = map Acquire [0..<10] @ [Ends 0 True, Acquire 10]"

definition month_days :: "string \<Rightarrow> string list \<Rightarrow> json list" where
  "month_days month ds = map (\<lambda>d. daily (month @ d) 1) ds"

definition wednesday_series :: "json list" where
  "wednesday_series =
     month_days ''2024-01-''
       [''03'', ''04'', ''05'', ''06'', ''07'', ''08'', ''09'', ''10'', ''11'', ''12'', ''13'', ''14'', ''15'', ''16'', ''17'', ''18'', ''19'', ''20'', ''21'', ''22'', ''23'', ''24'', ''25'', ''26'', ''27'', ''28'', ''29'', ''30'', ''31'']
     @ month_days ''2024-02-''
       [''01'', ''02'', ''03'', ''04'', ''05'', ''06'', ''07'', ''08'', ''09'', ''10'', ''11'', ''12'', ''13'', ''14'', ''15'', ''16'', ''17'', ''18'', ''19'', ''20'', ''21'', ''22'', ''23'', ''24'', ''25'', ''26'', ''27'', ''28'', ''29'']
     @ month_days ''2024-03-'' [''01'', ''02'', ''03'']"

definition sunday_series :: "json list" where
  "sunday_series =
     month_days ''2023-12-'' [''31'']
     @ month_days ''2024-01-''
       [''01'', ''02'', ''03'', ''04'', ''05'', ''06'', ''07'', ''08'', ''09'', ''10'', ''11'', ''12'', ''13'', ''14'', ''15'', ''16'', ''17'', ''18'', ''19'', ''20'', ''21'', ''22'', ''23'', ''24'', ''25'', ''26'', ''27'', ''28'', ''29'', ''30'', ''31'']
     @ month_days ''2024-02-''
       [''01'', ''02'', ''03'', ''04'', ''05'', ''06'', ''07'', ''08'', ''09'', ''10'', ''11'', ''12'', ''13'', ''14'', ''15'', ''16'', ''17'', ''18'', ''19'', ''20'', ''21'', ''22'', ''23'', ''24'', ''25'']"

chapter \<open>Properties\<close>

section \<open>The fixed-chunk loop\<close>

lemma caught_simps [simp]:
  "caught (Inl e) = Failed (str_exn e)"
  "caught (Inr x) = Fetched x"
  by (simp_all add: caught_def)

lemma is_daily_getitem:
  assumes "is_daily d"
  shows "getitem d (JStr ''downloads'') = Inr (JInt (count_of d))"
    and "getitem d (JStr ''day'') = Inr (day_of d)"
  using assms by (cases d; auto split: option.splits json.splits)+

lemma py_sum_ints: "py_sum (map JInt ns) acc = Inr (acc + sum_list ns)"
  by (induction ns arbitrary: acc) auto

lemma weekly_loop_short:
  "list_all is_daily xs \<Longrightarrow> length cw + length xs < 7 \<Longrightarrow>
   weekly_loop xs (map JInt cw) acc = Inr (map JInt (cw @ map count_of xs), acc)"
proof (induction xs arbitrary: cw)
  case Nil
  then show ?case by simp
next
  case (Cons d xs)
  from Cons.prems have d: "is_daily d" and xs: "list_all is_daily xs" by simp_all
  from Cons.prems have len: "length (cw @ [count_of d]) + length xs < 7" by simp
  have "weekly_loop (d # xs) (map JInt cw) acc = weekly_loop xs (map JInt (cw @ [count_of d])) acc"
    using Cons.prems(2) by (simp add: is_daily_getitem [OF d])
  also have "\<dots> = Inr (map JInt ((cw @ [count_of d]) @ map count_of xs), acc)"
    by (rule Cons.IH [OF xs len])
  finally show ?case by simp
qed

lemma weekly_loop_chunk:
  "list_all is_daily xs \<Longrightarrow> xs \<noteq> [] \<Longrightarrow> length cw + length xs = 7 \<Longrightarrow>
   weekly_loop (xs @ rest) (map JInt cw) acc =
     weekly_loop rest []
       (acc @ [\<lparr>week_ending = day_of (last xs),
                downloads = sum_list cw + sum_list (map count_of xs)\<rparr>])"
proof (induction xs arbitrary: cw)
  case Nil
  then show ?case by simp
next
  case (Cons d xs)
  from Cons.prems have d: "is_daily d" and xs: "list_all is_daily xs" by simp_all
  show ?case
  proof (cases "xs = []")
    case True
    with Cons.prems have "length cw = 6" by simp
    then show ?thesis
      using True py_sum_ints [of "cw @ [count_of d]" 0]
      by (simp add: is_daily_getitem [OF d])
  next
    case False
    from Cons.prems have len: "length (cw @ [count_of d]) + length xs = 7" by simp
    from Cons.prems False have "length cw \<noteq> 6" by (cases xs) auto
    then have "weekly_loop ((d # xs) @ rest) (map JInt cw) acc =
          weekly_loop (xs @ rest) (map JInt (cw @ [count_of d])) acc"
      by (simp add: is_daily_getitem [OF d])
    also note Cons.IH [OF xs False len]
    finally show ?thesis using False by (simp add: add.assoc)
  qed
qed

lemma weekly_loop_chunks:
  "list_all is_daily xs \<Longrightarrow>
   weekly_loop xs [] acc =
     Inr (map JInt (map count_of (rest_chunk xs)), acc @ map bucket_of (full_chunks xs))"
proof (induction xs arbitrary: acc rule: full_chunks.induct)
  case (1 xs)
  show ?case
  proof (cases "length xs < 7")
    case True
    then show ?thesis
      using weekly_loop_short [of xs "[]" acc] "1.prems"
      by (simp add: full_chunks.simps [of xs] rest_chunk.simps [of xs])
  next
    case False
    have t: "list_all is_daily (take 7 xs)" and dr: "list_all is_daily (drop 7 xs)"
      using "1.prems" by (auto simp: list_all_iff dest: in_set_takeD in_set_dropD)
    have ne: "take 7 xs \<noteq> []" and l7: "length ([]::int list) + length (take 7 xs) = 7"
      using False by auto
    have "weekly_loop (take 7 xs @ drop 7 xs) (map JInt []) acc =
          weekly_loop (drop 7 xs) [] (acc @ [bucket_of (take 7 xs)])"
      using weekly_loop_chunk [OF t ne l7, of "drop 7 xs" acc] by (simp add: bucket_of_def)
    then have "weekly_loop xs [] acc = weekly_loop (drop 7 xs) [] (acc @ [bucket_of (take 7 xs)])"
      by simp
    also have "\<dots> = Inr (map JInt (map count_of (rest_chunk (drop 7 xs))),
        (acc @ [bucket_of (take 7 xs)]) @ map bucket_of (full_chunks (drop 7 xs)))"
      using "1.IH" [OF False dr] .
    finally show ?thesis
      using False by (simp add: full_chunks.simps [of xs] rest_chunk.simps [of xs])
  qed
qed

lemma all_chunks_Nil: "all_chunks [] = []"
  by (simp add: all_chunks_def full_chunks.simps [of "[]"] rest_chunk.simps [of "[]"])

lemma all_chunks_short: "xs \<noteq> [] \<Longrightarrow> length xs < 7 \<Longrightarrow> all_chunks xs = [xs]"
  by (simp add: all_chunks_def full_chunks.simps [of xs] rest_chunk.simps [of xs])

lemma all_chunks_long:
  "\<not> length xs < 7 \<Longrightarrow> all_chunks xs = take 7 xs # all_chunks (drop 7 xs)"
  by (simp add: all_chunks_def full_chunks.simps [of xs] rest_chunk.simps [of xs])

lemma length_all_chunks: "length (all_chunks xs) = (length xs + 6) div 7"
proof (induction xs rule: full_chunks.induct)
  case (1 xs)
  show ?case
  proof (cases "length xs < 7")
    case True
    show ?thesis
    proof (cases "xs = []")
      case True
      then show ?thesis by (simp add: all_chunks_Nil)
    next
      case False
      then have "length xs \<noteq> 0" by simp
      with True have "(length xs + 6) div 7 = 1" by arith
      with True False show ?thesis by (simp add: all_chunks_short)
    qed
  next
    case False
    then have "length (all_chunks xs) = Suc ((length (drop 7 xs) + 6) div 7)"
      using "1.IH" by (simp add: all_chunks_long)
    also have "\<dots> = (length xs + 6) div 7" using False by simp
    finally show ?thesis .
  qed
qed

lemma nth_all_chunks:
  "k < length (all_chunks xs) \<Longrightarrow> all_chunks xs ! k = take 7 (drop (7 * k) xs)"
proof (induction xs arbitrary: k rule: full_chunks.induct)
  case (1 xs)
  show ?case
  proof (cases "length xs < 7")
    case True
    show ?thesis
    proof (cases "xs = []")
      case True
      with "1.prems" show ?thesis by (simp add: all_chunks_Nil)
    next
      case False
      with True "1.prems" show ?thesis by (simp add: all_chunks_short)
    qed
  next
    case False
    show ?thesis
    proof (cases k)
      case 0
      with False show ?thesis by (simp add: all_chunks_long)
    next
      case (Suc j)
      with "1.prems" False have j: "j < length (all_chunks (drop 7 xs))"
        by (simp add: all_chunks_long)
      have "all_chunks xs ! k = all_chunks (drop 7 xs) ! j"
        using False Suc by (simp add: all_chunks_long)
      also have "\<dots> = take 7 (drop (7 * j) (drop 7 xs))"
        using "1.IH" [OF False j] .
      also have "\<dots> = take 7 (drop (7 * k) xs)"
        using Suc by (simp add: add.commute)
      finally show ?thesis .
    qed
  qed
qed

lemma sum_all_chunks:
  "sum_list (map (\<lambda>c. sum_list (map f c)) (all_chunks xs)) = sum_list (map f xs)"
proof (induction xs rule: full_chunks.induct)
  case (1 xs)
  show ?case
  proof (cases "length xs < 7")
    case True
    then show ?thesis
      by (cases "xs = []") (simp_all add: all_chunks_Nil all_chunks_short)
  next
    case False
    have "sum_list (map f xs) = sum_list (map f (take 7 xs @ drop 7 xs))" by simp
    also have "\<dots> = sum_list (map f (take 7 xs)) + sum_list (map f (drop 7 xs))"
      unfolding map_append sum_list_append ..
    finally show ?thesis
      using False "1.IH" by (simp add: all_chunks_long)
  qed
qed

lemma rest_chunk_last: "rest_chunk xs \<noteq> [] \<Longrightarrow> last (rest_chunk xs) = last xs"
proof (induction xs rule: rest_chunk.induct)
  case (1 xs)
  show ?case
  proof (cases "length xs < 7")
    case True
    then show ?thesis by (simp add: rest_chunk.simps [of xs])
  next
    case False
    with "1.prems" have ne: "rest_chunk (drop 7 xs) \<noteq> []"
      by (simp add: rest_chunk.simps [of xs])
    then have "drop 7 xs \<noteq> []" by (auto simp: rest_chunk.simps [of "[]"])
    then have "last (drop 7 xs) = last xs" by (simp add: last_drop)
    with "1.IH" [OF False ne] False show ?thesis
      by (simp add: rest_chunk.simps [of xs])
  qed
qed

lemma rest_chunk_subset: "set (rest_chunk xs) \<subseteq> set xs"
proof (induction xs rule: rest_chunk.induct)
  case (1 xs)
  show ?case
  proof (cases "length xs < 7")
    case True
    then show ?thesis by (simp add: rest_chunk.simps [of xs])
  next
    case False
    with "1.IH" have "set (rest_chunk xs) \<subseteq> set (drop 7 xs)"
      by (simp add: rest_chunk.simps [of xs])
    then show ?thesis using set_drop_subset [of 7 xs] by blast
  qed
qed

lemma getitem_last: "xs \<noteq> [] \<Longrightarrow> getitem (JArr xs) (JInt (- 1)) = Inr (last xs)"
  by (simp add: seq_item_def index_of_def last_conv_nth nat_diff_distrib')

lemma processor_weekly_trends_chunks:
  assumes body: "map_of kvs ''downloads'' = Some (JArr xs)"
    and daily: "list_all is_daily xs"
  shows "processor_weekly_trends (JObj kvs) = Inr (map bucket_of (all_chunks xs))"
proof (cases "rest_chunk xs = []")
  case True
  then show ?thesis
    using body weekly_loop_chunks [OF daily, of "[]"]
    by (simp add: processor_weekly_trends_def all_chunks_def)
next
  case False
  then have ne: "xs \<noteq> []" by (auto simp: rest_chunk.simps [of "[]"])
  have "is_daily (last xs)" using daily ne by (simp add: list_all_iff)
  note lastd = is_daily_getitem(2) [OF this]
  have sum: "py_sum (map JInt (map count_of (rest_chunk xs))) 0
      = Inr (sum_list (map count_of (rest_chunk xs)))"
    using py_sum_ints [of "map count_of (rest_chunk xs)" 0] by simp
  show ?thesis
    using body False weekly_loop_chunks [OF daily, of "[]"] getitem_last [OF ne] lastd sum
      rest_chunk_last [OF False]
    by (simp add: processor_weekly_trends_def all_chunks_def bucket_of_def)
qed

lemma processor_weekly_trends_no_key:
  "map_of kvs ''downloads'' = None \<Longrightarrow> processor_weekly_trends (JObj kvs) = Inr []"
  by (simp add: processor_weekly_trends_def)

lemma processor_fetch_weekly_trends_chunks:
  assumes "map_of kvs ''downloads'' = Some (JArr xs)" and "list_all is_daily xs"
  shows "processor_fetch_weekly_trends (Response 200 (Inr (JObj kvs)))
           = Fetched (map bucket_of (all_chunks xs))"
  using processor_weekly_trends_chunks [OF assms]
  by (simp add: processor_fetch_weekly_trends_def)

lemma sum_counts_one:
  "\<forall>d\<in>set ys. count_of d = 1 \<Longrightarrow> sum_list (map count_of ys) = int (length ys)"
  by (induction ys) auto

lemma downloads_bucket_of: "downloads (bucket_of c) = sum_list (map count_of c)"
  by (simp add: bucket_of_def)

text \<open>
  Claim C2. Fixed-chunk bucketing: for a body whose \<^verbatim>\<open>"downloads"\<close> is a list of daily
  entries, \<^verbatim>\<open>fetch_weekly_trends\<close> of the processor succeeds with one bucket per run of
  seven consecutive entries in arrival order, the last run (one to seven entries) included;
  bucket \<open>k\<close> sums the entries \<open>7k\<close> to \<open>7k + 6\<close> that exist, and its \<open>week_ending\<close> is the
  day of the last of them. For 17 entries of count 1 the buckets hold 7, 7 and 3, and the
  last \<open>week_ending\<close> is the last day of the input.
\<close>

theorem fixed_chunk_buckets:
  assumes body: "map_of kvs ''downloads'' = Some (JArr xs)"
    and daily: "list_all is_daily xs"
  shows "\<exists>bs. processor_fetch_weekly_trends (Response 200 (Inr (JObj kvs))) = Fetched bs
      \<and> length bs = (length xs + 6) div 7
      \<and> (\<forall>k<length bs.
            bs ! k = \<lparr>week_ending = day_of (last (take 7 (drop (7 * k) xs))),
                      downloads = sum_list (map count_of (take 7 (drop (7 * k) xs)))\<rparr>)
      \<and> (length xs = 17 \<and> (\<forall>d\<in>set xs. count_of d = 1) \<longrightarrow>
            map downloads bs = [7, 7, 3] \<and> week_ending (last bs) = day_of (last xs))"
proof -
  let ?bs = "map bucket_of (all_chunks xs)"
  have len: "length ?bs = (length xs + 6) div 7"
    by (simp add: length_all_chunks)
  have nth: "?bs ! k = \<lparr>week_ending = day_of (last (take 7 (drop (7 * k) xs))),
                      downloads = sum_list (map count_of (take 7 (drop (7 * k) xs)))\<rparr>"
    if "k < length ?bs" for k
    using that by (simp add: nth_all_chunks bucket_of_def)
  have seventeen: "map downloads ?bs = [7, 7, 3] \<and> week_ending (last ?bs) = day_of (last xs)"
    if l17: "length xs = 17" and ones: "\<forall>d\<in>set xs. count_of d = 1"
  proof -
    have l3: "length ?bs = 3" using len l17 by simp
    have one: "sum_list (map count_of (take 7 (drop n xs))) = int (length (take 7 (drop n xs)))" for n
      using ones by (intro sum_counts_one) (auto dest: in_set_takeD in_set_dropD)
    have d: "downloads (?bs ! k) = int (length (take 7 (drop (7 * k) xs)))" if "k < 3" for k
      using nth [of k] that l3 one [of "7 * k"] by simp
    from l3 obtain a b c where abc: "?bs = [a, b, c]"
      by (auto simp: length_Suc_conv numeral_3_eq_3 simp del: map_map)
    have "map downloads ?bs = [downloads (?bs ! 0), downloads (?bs ! 1), downloads (?bs ! 2)]"
      unfolding abc by simp
    also have "\<dots> = [7, 7, 3]"
      using d [of 0] d [of 1] d [of 2] l17 by simp
    finally have a: "map downloads ?bs = [7, 7, 3]" .
    have "last ?bs = ?bs ! 2" unfolding abc by simp
    then have "week_ending (last ?bs) = day_of (last (take 7 (drop 14 xs)))"
      using nth [of 2] l3 by simp
    also have "last (take 7 (drop 14 xs)) = last xs"
      using l17 by (simp add: last_drop)
    finally show ?thesis using a by simp
  qed
  show ?thesis
    using processor_fetch_weekly_trends_chunks [OF body daily] len nth seventeen
    by (intro exI [of _ ?bs]) blast
qed

theorem fixed_chunk_buckets_witness:
  "list_all is_daily january17 \<and> length january17 = 17
   \<and> (\<exists>bs. processor_fetch_weekly_trends (Response 200 (Inr (JObj [(''downloads'', JArr january17)])))
              = Fetched bs
          \<and> map downloads bs = [7, 7, 3] \<and> week_ending (last bs) = JStr ''2024-01-17'')"
proof -
  have body: "map_of [(''downloads'', JArr january17)] ''downloads'' = Some (JArr january17)"
    by simp
  have daily: "list_all is_daily january17"
    by (simp add: january17_def daily_def)
  have l17: "length january17 = 17" by (simp add: january17_def)
  have ones: "\<forall>d\<in>set january17. count_of d = 1" by (simp add: january17_def daily_def)
  have lst: "day_of (last january17) = JStr ''2024-01-17''"
    by (simp add: january17_def daily_def)
  from fixed_chunk_buckets [OF body daily] l17 ones lst daily show ?thesis
    by auto
qed

text \<open>
  Claim C10. Fixed-chunk bucketing conserves the total: the downloads of the buckets add up
  to the counts of the daily entries, and an empty series gives no bucket.
\<close>

theorem fixed_chunk_conserves_total:
  assumes body: "map_of kvs ''downloads'' = Some (JArr xs)"
    and daily: "list_all is_daily xs"
  shows "\<exists>bs. processor_fetch_weekly_trends (Response 200 (Inr (JObj kvs))) = Fetched bs
      \<and> sum_list (map downloads bs) = sum_list (map count_of xs)
      \<and> (xs = [] \<longrightarrow> bs = [])"
proof -
  let ?bs = "map bucket_of (all_chunks xs)"
  have "sum_list (map downloads ?bs) = sum_list (map count_of xs)"
    using sum_all_chunks [of count_of xs] by (simp add: comp_def downloads_bucket_of)
  moreover have "xs = [] \<longrightarrow> ?bs = []" by (simp add: all_chunks_Nil)
  ultimately show ?thesis
    using processor_fetch_weekly_trends_chunks [OF body daily] by blast
qed

theorem fixed_chunk_conserves_total_witness:
  "\<exists>bs. processor_fetch_weekly_trends
          (Response 200 (Inr (JObj [(''downloads'',
             JArr [daily ''2024-03-01'' 5, daily ''2024-03-02'' 0, daily ''2024-03-03'' 12,
                   daily ''2024-03-04'' 7, daily ''2024-03-05'' 1, daily ''2024-03-06'' 30,
                   daily ''2024-03-07'' 2, daily ''2024-03-08'' 9, daily ''2024-03-09'' 4])])))
        = Fetched bs
     \<and> sum_list (map downloads bs) = 70"
proof -
  let ?xs = "[daily ''2024-03-01'' 5, daily ''2024-03-02'' 0, daily ''2024-03-03'' 12,
              daily ''2024-03-04'' 7, daily ''2024-03-05'' 1, daily ''2024-03-06'' 30,
              daily ''2024-03-07'' 2, daily ''2024-03-08'' 9, daily ''2024-03-09'' 4]"
  have body: "map_of [(''downloads'', JArr ?xs)] ''downloads'' = Some (JArr ?xs)" by simp
  have daily: "list_all is_daily ?xs" by (simp add: daily_def)
  have total: "sum_list (map count_of ?xs) = 70" by (simp add: daily_def)
  from fixed_chunk_conserves_total [OF body daily] total show ?thesis by auto
qed

section \<open>Usage statistics\<close>

text \<open>
  Claim C9. A usage-statistics answer with status 200 whose body is an object is a success
  whatever fields it has: \<open>total_downloads\<close> is the \<^verbatim>\<open>downloads\<close> field and
  \<open>dependent_count\<close> the \<^verbatim>\<open>dependent_packages_count\<close> field, each 0 when the field is
  missing; the result carries no error.
\<close>

theorem usage_stats_defaults:
  "fetch_ecosystem_stats (Response 200 (Inr (JObj kvs))) =
     Fetched \<lparr>total_downloads = (case map_of kvs ''downloads'' of None \<Rightarrow> JInt 0 | Some v \<Rightarrow> v),
              dependent_count =
                (case map_of kvs ''dependent_packages_count'' of None \<Rightarrow> JInt 0 | Some v \<Rightarrow> v)\<rparr>
   \<and> \<not> has_error (fetch_ecosystem_stats (Response 200 (Inr (JObj kvs))))
   \<and> (map_of kvs ''downloads'' = None \<longrightarrow>
        (\<exists>st. fetch_ecosystem_stats (Response 200 (Inr (JObj kvs))) = Fetched st
              \<and> total_downloads st = JInt 0))
   \<and> (map_of kvs ''dependent_packages_count'' = None \<longrightarrow>
        (\<exists>st. fetch_ecosystem_stats (Response 200 (Inr (JObj kvs))) = Fetched st
              \<and> dependent_count st = JInt 0))"
  by (simp add: fetch_ecosystem_stats_def)

theorem usage_stats_defaults_witness:
  "fetch_ecosystem_stats (Response 200 (Inr (JObj [(''name'', JStr ''left-pad'')]))) =
     Fetched \<lparr>total_downloads = JInt 0, dependent_count = JInt 0\<rparr>
   \<and> fetch_ecosystem_stats (Response 200 (Inr (JObj [(''downloads'', JInt 52)]))) =
     Fetched \<lparr>total_downloads = JInt 52, dependent_count = JInt 0\<rparr>"
  using usage_stats_defaults [of "[(''name'', JStr ''left-pad'')]"]
    usage_stats_defaults [of "[(''downloads'', JInt 52)]"]
  by simp

section \<open>The batch\<close>

lemma fold_results:
  "fold (\<lambda>i done. done(i \<mapsto> task i)) finished m =
     (\<lambda>i. if i \<in> set finished then Some (task i) else m i)"
  by (induction finished arbitrary: m) (auto simp: fun_eq_iff)

lemma gather_all:
  assumes "set finished = {..<n}"
  shows "gather finished n task = Some (map task [0..<n])"
  using assms by (simp add: gather_def fold_results)

lemma gather_some:
  assumes "gather finished n task = Some rs"
  shows "rs = map task [0..<n]"
proof -
  from assms have all: "\<forall>i\<in>set [0..<n]. i \<in> set finished"
    by (auto simp: gather_def fold_results Let_def split: if_splits)
  then have "map (\<lambda>i. the (if i \<in> set finished then Some (task i) else None)) [0..<n]
      = map task [0..<n]"
    by (intro map_cong) auto
  with assms show ?thesis
    by (auto simp: gather_def fold_results Let_def split: if_splits)
qed

section \<open>The record of one package\<close>

lemma and_then_eq_Inr: "and_then r f = Inr y \<longleftrightarrow> (\<exists>x. r = Inr x \<and> f x = Inr y)"
  by (cases r) auto

lemma and_then_eq_Inl:
  "and_then r f = Inl e \<longleftrightarrow> r = Inl e \<or> (\<exists>x. r = Inr x \<and> f x = Inl e)"
  by (cases r) auto

lemma error_create [simp]: "error (create_error_entry n m) = Some m"
  and name_create [simp]: "name (create_error_entry n m) = n"
  by (simp_all add: create_error_entry_def)

lemma compose_shape:
  "processor_compose n data es ws = Inr r \<Longrightarrow>
     (r = create_error_entry n ''No version information found'')
     \<or> (error r = None \<and> name r = n \<and> (\<exists>st. es = Fetched st) \<and> (\<exists>w. ws = Fetched w))"
  unfolding processor_compose_def
  by (cases es; cases ws) (auto simp: and_then_eq_Inr split: if_splits)

lemma fetch_try_shape:
  assumes "fetch_package_info_try src n = Inr r"
  shows "(\<exists>m. r = create_error_entry n m)
     \<or> (error r = None \<and> name r = n
        \<and> (\<exists>data. registry src = Response 200 (Inr data))
        \<and> (\<exists>st. fetch_ecosystem_stats (ecosystem src) = Fetched st)
        \<and> (\<exists>w. processor_fetch_weekly_trends (trends src) = Fetched w))"
  using assms unfolding fetch_package_info_try_def Let_def
  by (auto split: http_outcome.splits if_splits sum.splits dest!: compose_shape)

lemma fetch_shape:
  "(\<exists>m. fetch_package_info src n = create_error_entry n m)
   \<or> (error (fetch_package_info src n) = None \<and> name (fetch_package_info src n) = n
      \<and> (\<exists>data. registry src = Response 200 (Inr data))
      \<and> (\<exists>st. fetch_ecosystem_stats (ecosystem src) = Fetched st)
      \<and> (\<exists>w. processor_fetch_weekly_trends (trends src) = Fetched w))"
proof (cases "fetch_package_info_try src n")
  case (Inl e)
  then show ?thesis by (auto simp: fetch_package_info_def)
next
  case (Inr r)
  from fetch_try_shape [OF Inr] Inr show ?thesis
    by (simp add: fetch_package_info_def)
qed

lemma fetch_name: "name (fetch_package_info src n) = n"
  using fetch_shape [of src n] by auto


lemma fetch_package_info_stages:
  assumes "registry src = Response 200 (Inr data)"
  shows "fetch_package_info src n =
     (if has_error (fetch_ecosystem_stats (ecosystem src))
      then create_error_entry n (error_of (fetch_ecosystem_stats (ecosystem src)))
      else if has_error (processor_fetch_weekly_trends (trends src))
      then create_error_entry n (error_of (processor_fetch_weekly_trends (trends src)))
      else (case processor_compose n data (fetch_ecosystem_stats (ecosystem src))
                   (processor_fetch_weekly_trends (trends src)) of
              Inl e \<Rightarrow> create_error_entry n (str_exn e)
            | Inr r \<Rightarrow> r))"
  using assms by (simp add: fetch_package_info_def fetch_package_info_try_def Let_def)




lemma set_two: "set [Suc 0, 0] = {..<length two_names}" "set [0, Suc 0] = {..<length two_names}"
  by (auto simp: two_names_def)


text \<open>
  Claim C4 fails on a registry call that times out. The exception has an empty text, so the
  record of the package carries the error \<^verbatim>\<open>""\<close>: the batch returns it beside the record
  of the second package, and the summary, which takes an empty error for none, counts two
  successes and no failure. The fault is neither a populated error field nor part of the
  failure count.
\<close>

theorem timed_out_package_counted_successful:
  "registry (timeout_sources 0) = GetRaises []
   \<and> process_packages [0, Suc 0] timeout_sources timeout_names =
       Some [create_error_entry ''left-pad'' [],
             fetch_package_info (answering (package_doc (JObj []))) ''react-dom'']
   \<and> map_option (map error) (process_packages [0, Suc 0] timeout_sources timeout_names) =
       Some [Some [], None]
   \<and> map_option successful (process_packages [0, Suc 0] timeout_sources timeout_names) = Some 2"
  by code_simp

text \<open>
  Claim C5. Whatever the order in which the tasks finish, the batch returns as many
  records as there are names, the record at position \<open>i\<close> is the one computed for the name
  at position \<open>i\<close> and carries that name, and any other finishing order gives the same list.
\<close>

theorem batch_keeps_input_order:
  assumes "set finished = {..<length names}"
  shows "\<exists>rs. process_packages finished srcs names = Some rs
      \<and> length rs = length names
      \<and> (\<forall>i<length names.
            rs ! i = fetch_package_info (srcs i) (names ! i) \<and> name (rs ! i) = names ! i)
      \<and> (\<forall>other. set other = {..<length names} \<longrightarrow>
            process_packages other srcs names = Some rs)"
proof -
  let ?rs = "map (\<lambda>i. fetch_package_info (srcs i) (names ! i)) [0..<length names]"
  have any: "process_packages fin srcs names = Some ?rs" if "set fin = {..<length names}" for fin
    unfolding process_packages_def by (rule gather_all [OF that])
  have "\<forall>i<length names.
      ?rs ! i = fetch_package_info (srcs i) (names ! i) \<and> name (?rs ! i) = names ! i"
    by (simp add: fetch_name)
  with any [OF assms] any show ?thesis by (intro exI [of _ ?rs]) simp
qed

theorem batch_keeps_input_order_witness:
  "set [Suc 0, 0] = {..<length two_names}
   \<and> (\<exists>rs. process_packages [Suc 0, 0] two_sources two_names = Some rs
          \<and> process_packages [0, Suc 0] two_sources two_names = Some rs
          \<and> name (rs ! 0) = ''react-dom'' \<and> name (rs ! 1) = ''does-not-exist-xyz123'')"
proof -
  from batch_keeps_input_order [OF set_two(1), of two_sources] obtain rs where
    rs: "process_packages [Suc 0, 0] two_sources two_names = Some rs"
    and nth: "\<forall>i<length two_names. name (rs ! i) = two_names ! i"
    and other: "\<forall>other. set other = {..<length two_names} \<longrightarrow>
        process_packages other two_sources two_names = Some rs"
    by blast
  from other set_two(2) have "process_packages [0, Suc 0] two_sources two_names = Some rs"
    by blast
  moreover from nth have "name (rs ! 0) = ''react-dom''" "name (rs ! 1) = ''does-not-exist-xyz123''"
    by (simp_all add: two_names_def)
  ultimately show ?thesis using rs set_two(1) by blast
qed

section \<open>Error entries\<close>

lemma dec_nat_nonempty: "dec_nat n \<noteq> []"
  by (subst dec_nat.simps) simp

lemma dec_int_nonempty: "dec_int i \<noteq> []"
  by (simp add: dec_int_def dec_nat_nonempty)

lemma dict_get_loud: "dict_get x k d = Inl e \<Longrightarrow> str_exn e \<noteq> []"
  by (cases x) (auto simp: no_attribute_def)

lemma dict_keys_loud: "dict_keys x = Inl e \<Longrightarrow> str_exn e \<noteq> []"
  by (cases x) (auto simp: no_attribute_def)

lemma seq_item_loud: "seq_item x i = Inl e \<Longrightarrow> str_exn e \<noteq> []"
  by (auto simp: seq_item_def split: json.splits option.splits)

lemma repr_str_nonempty: "repr_str k \<noteq> []"
  by (simp add: repr_str_def Let_def)

lemma getitem_loud: "getitem x i = Inl e \<Longrightarrow> str_exn e \<noteq> []"
  by (cases "(x, i)" rule: getitem.cases)
    (auto simp: repr_str_nonempty dec_int_nonempty quoted_def dest: seq_item_loud
      split: option.splits if_splits)

lemma data_key_loud: "data_key k r = Inl e \<Longrightarrow> str_exn e \<noteq> []"
  by (cases r) (auto simp: repr_str_nonempty)

lemma py_sum_loud: "py_sum xs acc = Inl e \<Longrightarrow> str_exn e \<noteq> []"
  by (induction xs acc rule: py_sum.induct) auto

lemma py_iter_loud: "py_iter x = Inl e \<Longrightarrow> str_exn e \<noteq> []"
  by (cases x) auto

lemma compose_loud: "processor_compose n data es ws = Inl e \<Longrightarrow> str_exn e \<noteq> []"
  unfolding processor_compose_def
  by (auto simp: and_then_eq_Inl split: if_splits
      dest: dict_get_loud dict_keys_loud getitem_loud data_key_loud)

lemma fetch_try_loud:
  assumes "fetch_package_info_try src n = Inl e" and "str_exn e = []"
  shows "registry src = GetRaises [] \<or> registry src = Response 200 (Inl [])"
  using assms unfolding fetch_package_info_try_def Let_def
  by (auto split: http_outcome.splits if_splits sum.splits dest: compose_loud)

lemma has_error_nonempty: "has_error r \<Longrightarrow> error_of r \<noteq> []"
  by (cases r) auto

lemma fetch_try_error_nonempty:
  assumes "fetch_package_info_try src n = Inr r" and "error r = Some m"
  shows "m \<noteq> []"
  using assms unfolding fetch_package_info_try_def Let_def
  by (auto simp: and_then_eq_Inr processor_compose_def dec_int_nonempty
      split: http_outcome.splits if_splits sum.splits dest: has_error_nonempty)

text \<open>
  A record of \<^verbatim>\<open>fetch_package_info\<close> with an error is the error entry: totals 0,
  description, link and latest version empty, no dependencies and no weekly trends. An
  empty message can only come from an exception of the registry call or of the decoding
  of its body whose own text is empty.
\<close>

lemma error_record_shape:
  assumes "error (fetch_package_info src n) = Some m"
  shows "fetch_package_info src n = create_error_entry n m
     \<and> downloads_total (fetch_package_info src n) = JInt 0
     \<and> dependent_packages_count (fetch_package_info src n) = JInt 0
     \<and> description (fetch_package_info src n) = JStr []
     \<and> link (fetch_package_info src n) = []
     \<and> latest_version (fetch_package_info src n) = JStr []
     \<and> dependencies (fetch_package_info src n) = []
     \<and> weekly_trends (fetch_package_info src n) = []
     \<and> (m = [] \<longrightarrow> registry src = GetRaises [] \<or> registry src = Response 200 (Inl []))"
proof -
  from fetch_shape [of src n] assms obtain m' where
    r: "fetch_package_info src n = create_error_entry n m'" by auto
  with assms have m': "m' = m" by simp
  have "registry src = GetRaises [] \<or> registry src = Response 200 (Inl [])" if "m = []"
  proof (cases "fetch_package_info_try src n")
    case (Inl e)
    with assms that have "str_exn e = []" by (simp add: fetch_package_info_def)
    with Inl show ?thesis by (rule fetch_try_loud)
  next
    case (Inr r')
    with assms have "error r' = Some m" by (simp add: fetch_package_info_def)
    from fetch_try_error_nonempty [OF Inr this] that show ?thesis by simp
  qed
  with r m' show ?thesis by (simp add: create_error_entry_def)
qed

text \<open>
  Claim C6 fails on a registry call that times out: the exception has an empty text, the
  record is the error entry with an empty message, and the summary counts it among the
  successes.
\<close>

theorem empty_error_counterexample:
  "registry timing_out = GetRaises []
   \<and> fetch_package_info timing_out ''left-pad'' = create_error_entry ''left-pad'' []
   \<and> error (fetch_package_info timing_out ''left-pad'') = Some []
   \<and> successful [fetch_package_info timing_out ''left-pad''] = 1"
  by (simp add: fetch_package_info_def fetch_package_info_try_def timing_out_def successful_def)

section \<open>The version check\<close>





lemma update_package_info_try_stages:
  assumes "registry src = Response 200 (Inr data)"
  shows "update_package_info_try strptime strftime src n now =
     (if has_error (fetch_ecosystem_stats (ecosystem src))
      then Inl (Exception (error_of (fetch_ecosystem_stats (ecosystem src))))
      else if has_error (updater_fetch_weekly_trends strptime strftime (trends src))
      then Inl (Exception (error_of (updater_fetch_weekly_trends strptime strftime (trends src))))
      else updater_compose n data (fetch_ecosystem_stats (ecosystem src))
             (updater_fetch_weekly_trends strptime strftime (trends src)) now)"
  using assms by (simp add: update_package_info_try_def Let_def)





section \<open>The fields taken from the metadata\<close>

lemma names_of_keys:
  assumes "names_of ld k = Some ds"
  shows "and_then (dict_get (JObj ld) k (JObj [])) dict_keys = Inr ds"
  using assms by (auto simp: names_of_def split: option.splits json.splits)

lemma compose_resolved:
  assumes tags: "map_of kvs ''dist-tags'' = Some (JObj ts)"
    and latest: "map_of ts ''latest'' = Some (JStr v)" and v: "v \<noteq> []"
    and versions: "map_of kvs ''versions'' = Some (JObj vs)"
    and entry: "map_of vs v = Some (JObj ld)"
    and deps: "names_of ld ''dependencies'' = Some ds"
  shows "processor_compose n (JObj kvs) (Fetched st) (Fetched w) =
     Inr \<lparr>description = (case map_of kvs ''description'' of None \<Rightarrow> JStr [] | Some d \<Rightarrow> d),
          link = ''https://www.npmjs.com/package/'' @ n,
          dependencies = ds,
          downloads_total = total_downloads st,
          weekly_trends = w,
          dependent_packages_count = dependent_count st,
          latest_version = JStr v,
          name = n,
          error = None\<rparr>"
proof -
  from deps obtain dj where dj: "dict_get (JObj ld) ''dependencies'' (JObj []) = Inr dj"
    and keys: "dict_keys dj = Inr ds"
    using names_of_keys [OF deps] by (auto simp: and_then_eq_Inr)
  show ?thesis
    unfolding processor_compose_def
    using tags latest v versions entry dj keys by simp
qed

lemma updater_compose_resolved:
  assumes tags: "map_of kvs ''dist-tags'' = Some (JObj ts)"
    and latest: "map_of ts ''latest'' = Some (JStr v)" and v: "v \<noteq> []"
    and versions: "map_of kvs ''versions'' = Some (JObj vs)"
    and entry: "map_of vs v = Some (JObj ld)"
    and deps: "names_of ld ''dependencies'' = Some ds"
    and peers: "names_of ld ''peerDependencies'' = Some ps"
  shows "updater_compose n (JObj kvs) (Fetched st) (Fetched w) now =
     Inr \<lparr>description = (case map_of kvs ''description'' of None \<Rightarrow> JStr [] | Some d \<Rightarrow> d),
          link = ''https://www.npmjs.com/package/'' @ n,
          dependencies = ds,
          downloads_total = total_downloads st,
          weekly_trends = w,
          dependent_packages_count = dependent_count st,
          latest_version = JStr v,
          peerDependencies = ps,
          last_updated = now\<rparr>"
proof -
  from deps obtain dj where dj: "dict_get (JObj ld) ''dependencies'' (JObj []) = Inr dj"
    and keys: "dict_keys dj = Inr ds"
    using names_of_keys [OF deps] by (auto simp: and_then_eq_Inr)
  from peers obtain pj where pj: "dict_get (JObj ld) ''peerDependencies'' (JObj []) = Inr pj"
    and pkeys: "dict_keys pj = Inr ps"
    using names_of_keys [OF peers] by (auto simp: and_then_eq_Inr)
  show ?thesis
    unfolding updater_compose_def
    using tags latest v versions entry dj keys pj pkeys by simp
qed

text \<open>
  Claim C8, as the code has it. For a registry answer with a resolvable latest version
  (and a successful usage-statistics fetch), the record of the processor holds the
  description (empty when absent) and the names of the latest version's
  \<^verbatim>\<open>dependencies\<close> (none when absent) once the trend fetch succeeds; it has no field for
  peer dependencies. The update of the updater holds the same and the names of
  \<^verbatim>\<open>peerDependencies\<close> (none when absent).
\<close>

theorem composed_metadata_fields:
  assumes reg: "registry src = Response 200 (Inr (JObj kvs))"
    and tags: "map_of kvs ''dist-tags'' = Some (JObj ts)"
    and latest: "map_of ts ''latest'' = Some (JStr v)" and v: "v \<noteq> []"
    and versions: "map_of kvs ''versions'' = Some (JObj vs)"
    and entry: "map_of vs v = Some (JObj ld)"
    and deps: "names_of ld ''dependencies'' = Some ds"
    and eco: "fetch_ecosystem_stats (ecosystem src) = Fetched st"
  shows "(processor_fetch_weekly_trends (trends src) = Fetched w \<longrightarrow>
           fetch_package_info src n =
             \<lparr>description = (case map_of kvs ''description'' of None \<Rightarrow> JStr [] | Some d \<Rightarrow> d),
              link = ''https://www.npmjs.com/package/'' @ n,
              dependencies = ds,
              downloads_total = total_downloads st,
              weekly_trends = w,
              dependent_packages_count = dependent_count st,
              latest_version = JStr v,
              name = n,
              error = None\<rparr>)
     \<and> (updater_fetch_weekly_trends strptime strftime (trends src) = Fetched w'
          \<and> names_of ld ''peerDependencies'' = Some ps \<longrightarrow>
           update_package_info_try strptime strftime src n now =
             Inr \<lparr>description = (case map_of kvs ''description'' of None \<Rightarrow> JStr [] | Some d \<Rightarrow> d),
                  link = ''https://www.npmjs.com/package/'' @ n,
                  dependencies = ds,
                  downloads_total = total_downloads st,
                  weekly_trends = w',
                  dependent_packages_count = dependent_count st,
                  latest_version = JStr v,
                  peerDependencies = ps,
                  last_updated = now\<rparr>)"
proof (intro conjI impI)
  assume w: "processor_fetch_weekly_trends (trends src) = Fetched w"
  show "fetch_package_info src n =
             \<lparr>description = (case map_of kvs ''description'' of None \<Rightarrow> JStr [] | Some d \<Rightarrow> d),
              link = ''https://www.npmjs.com/package/'' @ n,
              dependencies = ds,
              downloads_total = total_downloads st,
              weekly_trends = w,
              dependent_packages_count = dependent_count st,
              latest_version = JStr v,
              name = n,
              error = None\<rparr>"
    by (simp add: fetch_package_info_stages [OF reg] eco w
        compose_resolved [OF tags latest v versions entry deps])
next
  assume "updater_fetch_weekly_trends strptime strftime (trends src) = Fetched w'
          \<and> names_of ld ''peerDependencies'' = Some ps"
  then have w: "updater_fetch_weekly_trends strptime strftime (trends src) = Fetched w'"
    and peers: "names_of ld ''peerDependencies'' = Some ps" by simp_all
  show "update_package_info_try strptime strftime src n now =
             Inr \<lparr>description = (case map_of kvs ''description'' of None \<Rightarrow> JStr [] | Some d \<Rightarrow> d),
                  link = ''https://www.npmjs.com/package/'' @ n,
                  dependencies = ds,
                  downloads_total = total_downloads st,
                  weekly_trends = w',
                  dependent_packages_count = dependent_count st,
                  latest_version = JStr v,
                  peerDependencies = ps,
                  last_updated = now\<rparr>"
    by (simp add: update_package_info_try_stages [OF reg] eco w
        updater_compose_resolved [OF tags latest v versions entry deps peers])
qed

theorem composed_metadata_fields_witness:
  "description (fetch_package_info (answering (package_doc (JObj [(''react'', JStr ''^18.2.0'')])))
       ''react-dom'') = JStr ''React package for working with the DOM.''
   \<and> dependencies (fetch_package_info (answering (package_doc (JObj [(''react'', JStr ''^18.2.0'')])))
       ''react-dom'') = [''loose-envify'', ''scheduler'']
   \<and> (\<exists>u. update_package_info_try iso_strptime iso_strftime
              (answering (package_doc (JObj [(''react'', JStr ''^18.2.0'')]))) ''react-dom'' 0 = Inr u
          \<and> description u = JStr ''React package for working with the DOM.''
          \<and> dependencies u = [''loose-envify'', ''scheduler'']
          \<and> peerDependencies u = [''react''])"
proof -
  let ?peers = "JObj [(''react'', JStr ''^18.2.0'')]"
  let ?src = "answering (package_doc ?peers)"
  let ?ld = "[(''version'', JStr ''18.2.0''),
              (''dependencies'',
                 JObj [(''loose-envify'', JStr ''^1.1.0''), (''scheduler'', JStr ''^0.23.0'')]),
              (''peerDependencies'', ?peers)]"
  let ?vs = "[(''18.1.0'', JObj [(''version'', JStr ''18.1.0'')]), (''18.2.0'', JObj ?ld)]"
  let ?ts = "[(''latest'', JStr ''18.2.0''), (''next'', JStr ''18.3.0-next'')]"
  let ?kvs = "[(''name'', JStr ''react-dom''),
               (''description'', JStr ''React package for working with the DOM.''),
               (''dist-tags'', JObj ?ts), (''versions'', JObj ?vs)]"
  have reg: "registry ?src = Response 200 (Inr (JObj ?kvs))"
    by (simp add: answering_def package_doc_def)
  have tags: "map_of ?kvs ''dist-tags'' = Some (JObj ?ts)" by simp
  have latest: "map_of ?ts ''latest'' = Some (JStr ''18.2.0'')" by simp
  have v: "''18.2.0'' \<noteq> []" by simp
  have versions: "map_of ?kvs ''versions'' = Some (JObj ?vs)" by simp
  have entry: "map_of ?vs ''18.2.0'' = Some (JObj ?ld)" by simp
  have deps: "names_of ?ld ''dependencies'' = Some [''loose-envify'', ''scheduler'']"
    by (simp add: names_of_def)
  have peers: "names_of ?ld ''peerDependencies'' = Some [''react'']"
    by (simp add: names_of_def)
  have eco: "fetch_ecosystem_stats (ecosystem ?src)
      = Fetched \<lparr>total_downloads = JInt 48213, dependent_count = JInt 0\<rparr>"
    by (simp add: answering_def fetch_ecosystem_stats_def)
  have w: "processor_fetch_weekly_trends (trends ?src) =
      Fetched [\<lparr>week_ending = JStr ''2024-01-07'', downloads = 7\<rparr>,
               \<lparr>week_ending = JStr ''2024-01-14'', downloads = 7\<rparr>,
               \<lparr>week_ending = JStr ''2024-01-17'', downloads = 3\<rparr>]"
    by code_simp
  have w': "updater_fetch_weekly_trends iso_strptime iso_strftime (trends ?src) =
      Fetched [\<lparr>week_ending = JStr ''2024-01-07'', downloads = 7\<rparr>,
               \<lparr>week_ending = JStr ''2024-01-14'', downloads = 7\<rparr>]"
    by code_simp
  from composed_metadata_fields [OF reg tags latest v versions entry deps eco,
      where n = "''react-dom''" and strptime = iso_strptime and strftime = iso_strftime
        and now = 0 and ps = "[''react'']"] w w' peers
  show ?thesis by simp
qed

text \<open>
  Against claim C8 as stated: two registry answers that differ only in the peer dependencies
  of the latest version give the same record of the processor.
\<close>

theorem peer_dependencies_counterexample:
  "fetch_package_info (answering (package_doc (JObj [(''react'', JStr ''^18.2.0'')]))) ''react-dom''
     = fetch_package_info (answering (package_doc (JObj []))) ''react-dom''
   \<and> dict_keys (JObj [(''react'', JStr ''^18.2.0'')]) = Inr [''react'']
   \<and> dict_keys (JObj []) = Inr []"
  by code_simp

section \<open>The semaphore\<close>

text \<open>
  In the processor every call in flight holds a unit of the semaphore, so the units left
  and the calls in flight add up to 10 in every state a run of events reaches.
\<close>

lemma count_update:
  "i < length xs \<Longrightarrow>
   length (filter P (xs[i := y])) + (if P (xs ! i) then 1 else 0)
     = length (filter P xs) + (if P y then 1 else 0)"
proof (induction xs arbitrary: i)
  case Nil
  then show ?case by simp
next
  case (Cons x xs)
  show ?case
  proof (cases i)
    case 0
    then show ?thesis by simp
  next
    case (Suc j)
    with Cons.prems have "j < length xs" by simp
    from Cons.IH [OF this] Suc show ?thesis by simp
  qed
qed

lemma in_flight_update:
  assumes "i < length (tasks p)"
  shows "in_flight (p\<lparr>tasks := (tasks p)[i := y]\<rparr>) + (if in_flight_point (tasks p ! i) then 1 else 0)
     = in_flight p + (if in_flight_point y then 1 else 0)"
  using count_update [OF assms, of in_flight_point y] by (simp add: in_flight_def)

lemma processor_step_inv:
  assumes "processor_step ev p = Some p'" and "sem p + in_flight p = 10"
  shows "sem p' + in_flight p' = 10"
proof (cases ev)
  case (Acquire i)
  with assms(1) have i: "i < length (tasks p)" and w: "tasks p ! i = Waiting Metadata"
    and s: "0 < sem p"
    and p': "p' = \<lparr>sem = sem p - 1, tasks = (tasks p)[i := InFlight Metadata True]\<rparr>"
    by (auto simp: processor_step_def split: if_splits)
  from count_update [OF i, of in_flight_point "InFlight Metadata True"] w
  have "in_flight p' = in_flight p + 1" by (simp add: p' in_flight_def)
  with assms(2) s p' show ?thesis by simp
next
  case (Ends i ok)
  with assms(1) have i: "i < length (tasks p)"
    by (auto simp: processor_step_def split: if_splits)
  from Ends assms(1) i obtain st h where fl: "tasks p ! i = InFlight st h"
    by (cases "tasks p ! i") (auto simp: processor_step_def)
  from Ends assms(1) i fl consider
      (advance) st' where "p' = p\<lparr>tasks := (tasks p)[i := InFlight st' True]\<rparr>"
    | (release) "p' = \<lparr>sem = sem p + 1, tasks = (tasks p)[i := Finished]\<rparr>"
    by (cases st) (auto simp: processor_step_def split: if_splits)
  then show ?thesis
  proof cases
    case (advance st')
    from count_update [OF i, of in_flight_point "InFlight st' True"] fl
    have "in_flight p' = in_flight p" by (simp add: advance in_flight_def)
    with assms(2) advance show ?thesis by simp
  next
    case release
    from count_update [OF i, of in_flight_point Finished] fl
    have "in_flight p' + 1 = in_flight p" by (simp add: release in_flight_def)
    with assms(2) release show ?thesis by simp
  qed
qed

lemma processor_run_inv:
  "run processor_step evs p = Some p' \<Longrightarrow> sem p + in_flight p = 10 \<Longrightarrow>
   sem p' + in_flight p' = 10"
proof (induction evs arbitrary: p)
  case Nil
  then show ?case by simp
next
  case (Cons ev evs)
  from Cons.prems(1) obtain q where q: "processor_step ev p = Some q"
    and r: "run processor_step evs q = Some p'"
    by (auto split: option.splits)
  from Cons.IH [OF r processor_step_inv [OF q Cons.prems(2)]] show ?case .
qed

lemma start_inv: "sem (start n) + in_flight (start n) = 10"
  by (simp add: start_def in_flight_def)

lemma processor_bound:
  assumes "run processor_step evs (start n) = Some p"
  shows "in_flight p \<le> 10"
  using processor_run_inv [OF assms start_inv] by simp

text \<open>
  Claim C3 fails on the updater. With eleven packages, ten tasks acquire the semaphore and
  send their registry call; the first answer arrives, the task releases its unit and sends
  its usage-statistics call outside the semaphore; the eleventh task acquires the freed
  unit and sends its registry call. Eleven calls are then in flight and the semaphore is
  at 0. The processor, which keeps its unit over all three calls, refuses the same events.
\<close>

theorem updater_exceeds_bound:
  "map_option in_flight (run updater_step eleven_calls (start 11)) = Some 11
   \<and> map_option sem (run updater_step eleven_calls (start 11)) = Some 0
   \<and> run processor_step eleven_calls (start 11) = None"
  by code_simp

section \<open>The calendar-week loop\<close>

text \<open>
  Claim C1 fails on the updater. The series starts on Wednesday 2024-01-03 with count 1
  a day: five days of a partial week, then the eight full weeks from Monday 2024-01-08 to
  Sunday 2024-03-03. The loop emits nine buckets: the first Monday closes the partial
  week as a bucket of 5 downloads ending on 2024-01-07.
\<close>

theorem leading_partial_week_emitted:
  "length wednesday_series = 61
   \<and> iso_strptime (JStr ''2024-01-03'') = Inr 738888 \<and> weekday 738888 = 2
   \<and> updater_fetch_weekly_trends iso_strptime iso_strftime
        (Response 200 (Inr (JObj [(''downloads'', JArr wednesday_series)])))
      = Fetched
          [\<lparr>week_ending = JStr ''2024-01-07'', downloads = 5\<rparr>,
           \<lparr>week_ending = JStr ''2024-01-14'', downloads = 7\<rparr>,
           \<lparr>week_ending = JStr ''2024-01-21'', downloads = 7\<rparr>,
           \<lparr>week_ending = JStr ''2024-01-28'', downloads = 7\<rparr>,
           \<lparr>week_ending = JStr ''2024-02-04'', downloads = 7\<rparr>,
           \<lparr>week_ending = JStr ''2024-02-11'', downloads = 7\<rparr>,
           \<lparr>week_ending = JStr ''2024-02-18'', downloads = 7\<rparr>,
           \<lparr>week_ending = JStr ''2024-02-25'', downloads = 7\<rparr>,
           \<lparr>week_ending = JStr ''2024-03-03'', downloads = 7\<rparr>]"
  by code_simp

text \<open>
  The window the updater asks for itself (\<^verbatim>\<open>get_week_boundaries\<close>: from the Sunday eight
  weeks before the last Sunday to the last Sunday) always starts with such a partial week
  of one day; here for a last Sunday 2024-02-25.
\<close>

lemma sunday_window_nine_buckets:
  "length sunday_series = 57
   \<and> updater_fetch_weekly_trends iso_strptime iso_strftime
        (Response 200 (Inr (JObj [(''downloads'', JArr sunday_series)])))
      = Fetched
          [\<lparr>week_ending = JStr ''2023-12-31'', downloads = 1\<rparr>,
           \<lparr>week_ending = JStr ''2024-01-07'', downloads = 7\<rparr>,
           \<lparr>week_ending = JStr ''2024-01-14'', downloads = 7\<rparr>,
           \<lparr>week_ending = JStr ''2024-01-21'', downloads = 7\<rparr>,
           \<lparr>week_ending = JStr ''2024-01-28'', downloads = 7\<rparr>,
           \<lparr>week_ending = JStr ''2024-02-04'', downloads = 7\<rparr>,
           \<lparr>week_ending = JStr ''2024-02-11'', downloads = 7\<rparr>,
           \<lparr>week_ending = JStr ''2024-02-18'', downloads = 7\<rparr>,
           \<lparr>week_ending = JStr ''2024-02-25'', downloads = 7\<rparr>]"
  by code_simp

end
